theory Spec2Isabelle
  imports
    Complex_Main
    "HOL-Library.Char_ord"
    "HOL-Library.List_Lexorder"
    "HOL-Library.AList"
    "HOL-Library.Word"
begin

section \<open>Python values and exceptions\<close>

text \<open>
  The service is written in Python.  A value that may be \<open>None\<close> is a \<open>pyopt\<close>; a
  dictionary key that may be missing is an \<open>option\<close> around the value, so that
  \<open>"k" in d\<close> is \<open>d_k \<noteq> None\<close> and \<open>d.get("k")\<close> is \<open>None\<close> both for a missing key
  and for a key bound to \<open>None\<close>.  An exception raised inside a function is the left
  injection of a sum; a \<open>try: ... except Exception\<close> block is \<open>catch\<close>.
  A floating-point number is given by the real number it stands for; the results of the
  numeric library, where rounding and range matter, are parameters.
\<close>

datatype 'a pyopt = PyNone | Val 'a

datatype py_error = TypeError | AttributeError | RuntimeError

definition catch :: "py_error + 'a \<Rightarrow> 'a \<Rightarrow> py_error + 'a" where
  "catch body handler = (case body of Inl e \<Rightarrow> Inr handler | Inr v \<Rightarrow> Inr v)"

definition dict_get :: "'a pyopt option \<Rightarrow> 'a pyopt" where
  "dict_get f = (case f of None \<Rightarrow> PyNone | Some v \<Rightarrow> v)"

definition dict_get_default :: "'a pyopt option \<Rightarrow> 'a \<Rightarrow> 'a pyopt" where
  "dict_get_default f d = (case f of None \<Rightarrow> Val d | Some v \<Rightarrow> v)"

section \<open>SimilarityEngine.cosine\_similarity\<close>

text \<open>
  The engine's \<open>self.stats\<close> counters are written and never read by the functions
  below; they are left out, and the functions are modelled by their return values.

  \<open>np.array(..., dtype=np.float32)\<close> and \<open>scipy.spatial.distance.cosine\<close> are
  library code, and what they return depends on float32 rounding, overflow and underflow.
  They enter as the parameter \<open>cdist\<close>: \<open>cdist a b\<close> is the cosine distance the library
  returns for the two float32 arrays, and \<open>None\<close> when \<open>1 - cosine(a, b)\<close> is NaN or
  infinite (as for a zero vector, or when a squared norm overflows or underflows), which
  the code tests with \<open>math.isnan\<close> and \<open>math.isinf\<close>, or when the call raises,
  which the handler catches: in each of these cases the code returns 0.
\<close>

type_synonym cosine_distance = "real list \<Rightarrow> real list \<Rightarrow> real option"

text \<open>
  The body of the \<open>try\<close> block.  \<open>np.array(None)\<close> is a zero-dimensional array
  whose \<open>len\<close> raises \<open>TypeError\<close>; \<open>len(a) == 0 or len(b) == 0\<close> evaluates
  \<open>len(b)\<close> only when \<open>a\<close> is not empty.
\<close>

definition cosine_similarity_body ::
  "cosine_distance \<Rightarrow> real list pyopt \<Rightarrow> real list pyopt \<Rightarrow> py_error + real" where
  "cosine_similarity_body cdist vector_a vector_b =
     (case vector_a of
        PyNone \<Rightarrow> Inl TypeError
      | Val a \<Rightarrow>
          if length a = 0 then Inr 0
          else (case vector_b of
                  PyNone \<Rightarrow> Inl TypeError
                | Val b \<Rightarrow>
                    if length b = 0 then Inr 0
                    else if length a \<noteq> length b then Inr 0
                    else (case cdist a b of
                            None \<Rightarrow> Inr 0
                          | Some d \<Rightarrow>
                              let similarity = 1 - d;
                                  similarity = max 0 (min 1 similarity)
                              in Inr similarity)))"

definition cosine_similarity ::
  "cosine_distance \<Rightarrow> real list pyopt \<Rightarrow> real list pyopt \<Rightarrow> py_error + real" where
  "cosine_similarity cdist vector_a vector_b =
     catch (cosine_similarity_body cdist vector_a vector_b) 0"

text \<open>
  One instance of the parameter, used in the examples: the distance
  \<open>1 - u\<cdot>v / sqrt((u\<cdot>u) * (v\<cdot>v))\<close> in exact arithmetic, which is what the library
  computes up to rounding when nothing overflows or underflows.  At a zero vector the
  quotient is \<open>0/0\<close>, a NaN.
\<close>

definition dot :: "real list \<Rightarrow> real list \<Rightarrow> real" where
  "dot u v = sum_list (map2 (*) u v)"

definition exact_cosine :: cosine_distance where
  "exact_cosine u v =
     (let uv = dot u v; uu = dot u u; vv = dot v v
      in if uu * vv = 0 then None else Some (1 - uv / sqrt (uu * vv)))"

section \<open>Book and profile dictionaries\<close>

text \<open>
  Books and user profiles are Python dictionaries.  Each key the modelled functions read
  is a field; \<open>None\<close> in a field is a missing key, \<open>Some PyNone\<close> a key bound to
  Python's \<open>None\<close>.  The similarity score is a number when present.
\<close>

record book =
  b_id :: string
  name :: "string pyopt option"
  author :: "string pyopt option"
  category :: "string pyopt option"
  tags :: "string list pyopt option"
  embedding :: "real list pyopt option"
  similarity_score :: "real option"
  recommendation_reason :: "string option"

record user_profile =
  preference_embedding :: "real list pyopt option"
  favorite_categories :: "string list option"
  favorite_authors :: "string list option"
  interaction_count :: "nat option"

text \<open>\<open>x.get("similarity_score", 0)\<close>\<close>

definition score :: "book \<Rightarrow> real" where
  "score x = (case similarity_score x of None \<Rightarrow> 0 | Some s \<Rightarrow> s)"

section \<open>Example inputs\<close>

text \<open>A dictionary holding only an id, and the empty profile \<open>{}\<close>.\<close>

definition book_with_id :: "string \<Rightarrow> book" where
  "book_with_id i =
     \<lparr>b_id = i, name = None, author = None, category = None, tags = None,
      embedding = None, similarity_score = None, recommendation_reason = None\<rparr>"

definition empty_profile :: user_profile where
  "empty_profile =
     \<lparr>preference_embedding = None, favorite_categories = None, favorite_authors = None,
      interaction_count = None\<rparr>"

section \<open>SimilarityEngine.diversify\_results\<close>

text \<open>
  \<open>category_groups\<close> is a dictionary from category to the list of its candidates; its
  iteration order is the insertion order, so it is an association list, and
  \<open>AList.update\<close> is the dictionary assignment: an existing key keeps its place, a new
  key goes last.
\<close>

type_synonym category_groups = "(string pyopt \<times> book list) list"

fun group_by_category :: "book list \<Rightarrow> category_groups \<Rightarrow> category_groups" where
  "group_by_category [] groups = groups"
| "group_by_category (candidate # rest) groups =
     (let cat = dict_get_default (category candidate) ''uncategorized'';
          items = (case map_of groups cat of None \<Rightarrow> [] | Some its \<Rightarrow> its)
      in group_by_category rest (AList.update cat (items @ [candidate]) groups))"

text \<open>\<open>max(items, key=...)\<close> returns the first of the maximal elements.\<close>

fun max_by_score :: "book \<Rightarrow> book list \<Rightarrow> book" where
  "max_by_score best [] = best"
| "max_by_score best (x # xs) = max_by_score (if score x > score best then x else best) xs"

text \<open>
  One pass of the \<open>for category, items in category_groups.items()\<close> loop.  The state
  is the list built so far, the remaining slots and the number added in this round.
  The count of the category compares \<open>item.get("category")\<close> with the group's key.
\<close>

fun diversify_round ::
  "int \<Rightarrow> category_groups \<Rightarrow> book list \<Rightarrow> int \<Rightarrow> nat
     \<Rightarrow> category_groups \<times> book list \<times> int \<times> nat" where
  "diversify_round max_per_category [] diversified remaining_slots added_in_round =
     ([], diversified, remaining_slots, added_in_round)"
| "diversify_round max_per_category ((cat, items) # groups) diversified remaining_slots
       added_in_round =
     (if items = [] \<or> remaining_slots \<le> 0 then
        (case diversify_round max_per_category groups diversified remaining_slots
                added_in_round of
           (groups', res) \<Rightarrow> ((cat, items) # groups', res))
      else
        let best_item = max_by_score (hd items) (tl items);
            diversified = diversified @ [best_item];
            items = remove1 best_item items;
            category_count =
              int (length (filter (\<lambda>item. dict_get (category item) = cat) diversified));
            items = (if category_count \<ge> max_per_category then [] else items)
        in (case diversify_round max_per_category groups diversified (remaining_slots - 1)
                   (added_in_round + 1) of
              (groups', res) \<Rightarrow> ((cat, items) # groups', res)))"

lemma diversify_round_remaining:
  "diversify_round k groups d r a = (groups', d', r', a') \<Longrightarrow>
     r' \<le> r \<and> (a < a' \<longrightarrow> r' < r)"
proof (induction groups arbitrary: d r a groups' d' r' a')
  case Nil
  then show ?case by simp
next
  case (Cons g groups)
  obtain cat items where g: "g = (cat, items)" by (cases g)
  show ?case
  proof (cases "items = [] \<or> r \<le> 0")
    case True
    then obtain gs where "diversify_round k groups d r a = (gs, d', r', a')"
      using Cons.prems g by (auto split: prod.splits)
    then show ?thesis using Cons.IH by blast
  next
    case False
    then obtain gs dd where
      "diversify_round k groups dd (r - 1) (a + 1) = (gs, d', r', a')"
      using Cons.prems g by (auto simp: Let_def split: prod.splits)
    then have "r' \<le> r - 1" using Cons.IH by blast
    then show ?thesis by simp
  qed
qed

lemma diversify_round_added:
  "(groups', d', r', a') = diversify_round k groups d r 0 \<Longrightarrow> 0 < a' \<Longrightarrow> r' < r"
  using diversify_round_remaining [of k groups d r 0 groups' d' r' a'] by simp

text \<open>
  The \<open>while remaining_slots > 0 and any(category_groups.values())\<close> loop, left by
  \<open>break\<close> when a round adds nothing.
\<close>

function diversify_loop :: "int \<Rightarrow> category_groups \<Rightarrow> book list \<Rightarrow> int \<Rightarrow> book list" where
  "diversify_loop max_per_category groups diversified remaining_slots =
     (if remaining_slots > 0 \<and> list_ex (\<lambda>items. items \<noteq> []) (map snd groups) then
        (case diversify_round max_per_category groups diversified remaining_slots 0 of
           (groups', diversified', remaining_slots', added_in_round) \<Rightarrow>
             if added_in_round = 0 then diversified'
             else diversify_loop max_per_category groups' diversified' remaining_slots')
      else diversified)"
  by pat_completeness auto
termination
  apply (relation "measure (\<lambda>(k, groups, d, r). nat r)")
   apply simp
  apply (auto dest: diversify_round_added)
  done

declare diversify_loop.simps [simp del]

text \<open>
  The function itself.  The final \<open>sort(key=..., reverse=True)\<close> is stable, as is
  \<open>sort_key\<close> on the negated score.  With numeric scores nothing in the \<open>try\<close>
  block raises, so the handler that returns the candidates unchanged is never entered.
  The parameter \<open>diversity_factor\<close> is not read by the code.
\<close>

definition diversify_results :: "book list \<Rightarrow> real \<Rightarrow> int \<Rightarrow> book list" where
  "diversify_results candidates diversity_factor max_per_category =
     (if candidates = [] then candidates
      else
        let category_groups = group_by_category candidates [];
            diversified = diversify_loop max_per_category category_groups []
                            (int (length candidates))
        in sort_key (\<lambda>x. - score x) diversified)"

text \<open>The bucket of a candidate, as the grouping step assigns it.\<close>

definition bucket :: "book \<Rightarrow> string pyopt" where
  "bucket x = dict_get_default (category x) ''uncategorized''"

definition count_in_bucket :: "string pyopt \<Rightarrow> book list \<Rightarrow> nat" where
  "count_in_bucket c xs = length (filter (\<lambda>x. bucket x = c) xs)"

text \<open>
  For the proof that the limit holds where it does: the groups have distinct keys and
  hold items of their own bucket; every item of bucket \<open>c\<close> in a list carries a
  \<open>category\<close> key; the list of a group; and the bound on bucket \<open>c\<close>, which says
  that the bucket is below the limit, or at the limit with its group emptied.
\<close>

definition groups_ok :: "category_groups \<Rightarrow> bool" where
  "groups_ok groups \<longleftrightarrow>
     distinct (map fst groups) \<and> (\<forall>(c, items) \<in> set groups. \<forall>x \<in> set items. bucket x = c)"

definition keyed :: "string pyopt \<Rightarrow> book list \<Rightarrow> bool" where
  "keyed c xs \<longleftrightarrow> (\<forall>x \<in> set xs. bucket x = c \<longrightarrow> category x \<noteq> None)"

definition group_items :: "category_groups \<Rightarrow> string pyopt \<Rightarrow> book list" where
  "group_items groups c = (case map_of groups c of None \<Rightarrow> [] | Some items \<Rightarrow> items)"

definition bounded :: "int \<Rightarrow> string pyopt \<Rightarrow> category_groups \<Rightarrow> book list \<Rightarrow> bool" where
  "bounded k c groups d \<longleftrightarrow>
     int (count_in_bucket c d) < k \<or> (int (count_in_bucket c d) \<le> k \<and> group_items groups c = [])"

section \<open>SimilarityEngine.calculate\_user\_book\_affinity\<close>

text \<open>
  \<open>str.lower()\<close> on the code points below 256 (the letters A to Z, and the accented
  capitals \<open>0xC0\<close> to \<open>0xDE\<close> except the multiplication sign \<open>0xD7\<close>), and the
  substring test \<open>sub in s\<close>.
\<close>

definition upper_chars :: string where
  "upper_chars =
     ''ABCDEFGHIJKLMNOPQRSTUVWXYZ'' @
     [CHR 0xC0, CHR 0xC1, CHR 0xC2, CHR 0xC3, CHR 0xC4, CHR 0xC5, CHR 0xC6, CHR 0xC7,
      CHR 0xC8, CHR 0xC9, CHR 0xCA, CHR 0xCB, CHR 0xCC, CHR 0xCD, CHR 0xCE, CHR 0xCF,
      CHR 0xD0, CHR 0xD1, CHR 0xD2, CHR 0xD3, CHR 0xD4, CHR 0xD5, CHR 0xD6, CHR 0xD8,
      CHR 0xD9, CHR 0xDA, CHR 0xDB, CHR 0xDC, CHR 0xDD, CHR 0xDE]"

definition lower_chars :: string where
  "lower_chars =
     ''abcdefghijklmnopqrstuvwxyz'' @
     [CHR 0xE0, CHR 0xE1, CHR 0xE2, CHR 0xE3, CHR 0xE4, CHR 0xE5, CHR 0xE6, CHR 0xE7,
      CHR 0xE8, CHR 0xE9, CHR 0xEA, CHR 0xEB, CHR 0xEC, CHR 0xED, CHR 0xEE, CHR 0xEF,
      CHR 0xF0, CHR 0xF1, CHR 0xF2, CHR 0xF3, CHR 0xF4, CHR 0xF5, CHR 0xF6, CHR 0xF8,
      CHR 0xF9, CHR 0xFA, CHR 0xFB, CHR 0xFC, CHR 0xFD, CHR 0xFE]"

definition char_lower :: "char \<Rightarrow> char" where
  "char_lower c = (case map_of (zip upper_chars lower_chars) c of None \<Rightarrow> c | Some l \<Rightarrow> l)"

definition lower :: "string \<Rightarrow> string" where
  "lower s = map char_lower s"

definition py_in :: "string \<Rightarrow> string \<Rightarrow> bool" where
  "py_in sub s = list_ex (\<lambda>i. take (length sub) (drop i s) = sub) [0..<Suc (length s)]"

text \<open>
  The loop over the favourites, with its \<open>break\<close> at an exact match; \<open>partial\<close> is
  the value of a substring match (0.7 for categories, 0.8 for authors).
\<close>

fun match_loop :: "real \<Rightarrow> string list \<Rightarrow> string \<Rightarrow> real \<Rightarrow> real" where
  "match_loop partial [] target m = m"
| "match_loop partial (fav # favs) target m =
     (if lower fav = target then 1
      else if py_in (lower fav) target \<or> py_in target (lower fav)
      then match_loop partial favs target (max m partial)
      else match_loop partial favs target m)"

text \<open>
  The body of the \<open>try\<close> block: each component adds its weighted term to
  \<open>affinity_score\<close> and its weight to \<open>total_factors\<close> when both keys are present.
  \<open>book["category"].lower()\<close> raises \<open>AttributeError\<close> on \<open>None\<close>.
\<close>

definition content_component ::
  "cosine_distance \<Rightarrow> user_profile \<Rightarrow> book \<Rightarrow> py_error + (real \<times> real)" where
  "content_component cdist user_profile book =
     (case (preference_embedding user_profile, embedding book) of
        (Some pe, Some be) \<Rightarrow>
          (case cosine_similarity cdist pe be of
             Inl e \<Rightarrow> Inl e
           | Inr content_sim \<Rightarrow> Inr (0 + content_sim * 0.5, 0 + 0.5))
      | _ \<Rightarrow> Inr (0, 0))"

definition category_component ::
  "user_profile \<Rightarrow> book \<Rightarrow> real \<times> real \<Rightarrow> py_error + (real \<times> real)" where
  "category_component user_profile book acc =
     (case acc of (affinity_score, total_factors) \<Rightarrow>
        (case (favorite_categories user_profile, category book) of
           (Some favs, Some c) \<Rightarrow>
             (case c of
                PyNone \<Rightarrow> Inl AttributeError
              | Val cat \<Rightarrow>
                  let book_category = lower cat;
                      category_match = match_loop 0.7 favs book_category 0
                  in Inr (affinity_score + category_match * 0.3, total_factors + 0.3))
         | _ \<Rightarrow> Inr (affinity_score, total_factors)))"

definition author_component ::
  "user_profile \<Rightarrow> book \<Rightarrow> real \<times> real \<Rightarrow> py_error + (real \<times> real)" where
  "author_component user_profile book acc =
     (case acc of (affinity_score, total_factors) \<Rightarrow>
        (case (favorite_authors user_profile, author book) of
           (Some favs, Some a) \<Rightarrow>
             (case a of
                PyNone \<Rightarrow> Inl AttributeError
              | Val auth \<Rightarrow>
                  let book_author = lower auth;
                      author_match = match_loop 0.8 favs book_author 0
                  in Inr (affinity_score + author_match * 0.2, total_factors + 0.2))
         | _ \<Rightarrow> Inr (affinity_score, total_factors)))"

definition calculate_user_book_affinity_body ::
  "cosine_distance \<Rightarrow> user_profile \<Rightarrow> book \<Rightarrow> py_error + real" where
  "calculate_user_book_affinity_body cdist user_profile book =
     (case content_component cdist user_profile book of
        Inl e \<Rightarrow> Inl e
      | Inr acc1 \<Rightarrow>
          (case category_component user_profile book acc1 of
             Inl e \<Rightarrow> Inl e
           | Inr acc2 \<Rightarrow>
               (case author_component user_profile book acc2 of
                  Inl e \<Rightarrow> Inl e
                | Inr (affinity_score, total_factors) \<Rightarrow>
                    if total_factors > 0 then Inr (affinity_score / total_factors)
                    else Inr 0)))"

definition calculate_user_book_affinity ::
  "cosine_distance \<Rightarrow> user_profile \<Rightarrow> book \<Rightarrow> py_error + real" where
  "calculate_user_book_affinity cdist user_profile book =
     catch (calculate_user_book_affinity_body cdist user_profile book) 0"

section \<open>InMemoryCache\<close>

text \<open>
  \<open>datetime.now()\<close> is a parameter \<open>now\<close> of each operation, in microseconds (the
  resolution of \<open>datetime\<close>) since \<open>datetime.min\<close>; one reading serves a whole
  operation.
  \<open>timedelta(seconds=ttl)\<close> is \<open>ttl * 1000000\<close>.  The two dictionaries of the cache
  are association lists in insertion order, which the eviction sorts (stably) by access
  time.
\<close>

record 'v cache_entry =
  entry_value :: 'v
  expires_at :: int
  created_at :: int

record 'v in_memory_cache =
  cache :: "(string \<times> 'v cache_entry) list"
  max_size :: int
  access_times :: "(string \<times> int) list"

definition new_cache :: "int \<Rightarrow> 'v in_memory_cache" where
  "new_cache m = \<lparr>cache = [], max_size = m, access_times = []\<rparr>"

definition cache_delete :: "'v in_memory_cache \<Rightarrow> string \<Rightarrow> bool \<times> 'v in_memory_cache" where
  "cache_delete c key =
     (if map_of (cache c) key \<noteq> None then
        (True, c\<lparr>cache := AList.delete key (cache c),
                 access_times := AList.delete key (access_times c)\<rparr>)
      else (False, c))"

definition cache_get ::
  "'v in_memory_cache \<Rightarrow> string \<Rightarrow> int \<Rightarrow> 'v option \<times> 'v in_memory_cache" where
  "cache_get c key now =
     (case map_of (cache c) key of
        Some entry \<Rightarrow>
          if expires_at entry > now then
            (Some (entry_value entry),
             c\<lparr>access_times := AList.update key now (access_times c)\<rparr>)
          else (None, snd (cache_delete c key))
      | None \<Rightarrow> (None, c))"

definition keys_to_remove :: "'v in_memory_cache \<Rightarrow> string list" where
  "keys_to_remove c =
     (let sorted_keys = sort_key snd (access_times c)
      in map fst (take (max 1 (length sorted_keys div 10)) sorted_keys))"

definition evict_oldest :: "'v in_memory_cache \<Rightarrow> 'v in_memory_cache" where
  "evict_oldest c =
     (if access_times c = [] then c
      else foldl (\<lambda>c key. snd (cache_delete c key)) c (keys_to_remove c))"

text \<open>
  \<open>set\<close>.  Time is counted from \<open>datetime.min\<close>, so a \<open>datetime\<close> is a number
  between 0 and \<open>datetime_max\<close> (the last microsecond of the year 9999).  When
  \<open>datetime.now() + timedelta(seconds=ttl)\<close> leaves that range the addition (or the
  \<open>timedelta\<close> itself) raises \<open>OverflowError\<close>; the handler returns \<open>False\<close> and
  nothing is stored, after the eviction has run.
\<close>

definition datetime_max :: int where
  "datetime_max = 3652059 * 86400000000 - 1"

definition cache_set ::
  "'v in_memory_cache \<Rightarrow> string \<Rightarrow> 'v \<Rightarrow> int \<Rightarrow> int \<Rightarrow> bool \<times> 'v in_memory_cache" where
  "cache_set c key v ttl now =
     (let c = (if int (length (cache c)) \<ge> max_size c then evict_oldest c else c);
          expires = now + ttl * 1000000
      in if expires < 0 \<or> datetime_max < expires then (False, c)
         else
           (True,
            c\<lparr>cache := AList.update key
                          \<lparr>entry_value = v, expires_at = expires, created_at = now\<rparr>
                          (cache c),
              access_times := AList.update key now (access_times c)\<rparr>))"

definition cache_clear :: "'v in_memory_cache \<Rightarrow> bool \<times> 'v in_memory_cache" where
  "cache_clear c = (True, c\<lparr>cache := [], access_times := []\<rparr>)"

definition cache_exists ::
  "'v in_memory_cache \<Rightarrow> string \<Rightarrow> int \<Rightarrow> bool \<times> 'v in_memory_cache" where
  "cache_exists c key now = (case cache_get c key now of (r, c') \<Rightarrow> (r \<noteq> None, c'))"

text \<open>A sequence of operations on one cache.\<close>

datatype 'v cache_op =
    Get string int
  | Set string 'v int int
  | Delete string
  | Clear
  | Exists string int

fun apply_cache_op :: "'v in_memory_cache \<Rightarrow> 'v cache_op \<Rightarrow> 'v in_memory_cache" where
  "apply_cache_op c (Get key now) = snd (cache_get c key now)"
| "apply_cache_op c (Set key v ttl now) = snd (cache_set c key v ttl now)"
| "apply_cache_op c (Delete key) = snd (cache_delete c key)"
| "apply_cache_op c Clear = snd (cache_clear c)"
| "apply_cache_op c (Exists key now) = snd (cache_exists c key now)"

definition run_cache_ops :: "'v in_memory_cache \<Rightarrow> 'v cache_op list \<Rightarrow> 'v in_memory_cache" where
  "run_cache_ops c ops = foldl apply_cache_op c ops"

text \<open>
  The invariant of the cache used below: both dictionaries have distinct keys and the same
  keys (and, in \<open>cache_inv\<close>, the entries fit the capacity).
\<close>

definition cache_wf :: "'v in_memory_cache \<Rightarrow> bool" where
  "cache_wf c \<longleftrightarrow>
     distinct (map fst (cache c)) \<and> distinct (map fst (access_times c)) \<and>
     fst ` set (cache c) = fst ` set (access_times c)"

definition cache_inv :: "'v in_memory_cache \<Rightarrow> bool" where
  "cache_inv c \<longleftrightarrow>
     distinct (map fst (cache c)) \<and> distinct (map fst (access_times c)) \<and>
     fst ` set (cache c) = fst ` set (access_times c) \<and>
     int (length (cache c)) \<le> max_size c"

section \<open>CacheManager\<close>

text \<open>
  \<open>hashlib.md5\<close> is library code: the digest function is a parameter \<open>md5\<close> giving
  the 128-bit digest, and \<open>hexdigest\<close> writes it as 32 hexadecimal digits.  The values
  of the keyword arguments enter the key through \<open>f"{k}={v}"\<close> only, so they are given
  by their string form.  Keyword names are distinct, so \<open>sorted(params.items())\<close>
  orders the pairs by name.
\<close>

definition hex_digit :: "nat \<Rightarrow> char" where
  "hex_digit n = ''0123456789abcdef'' ! (n mod 16)"

definition hexdigest :: "128 word \<Rightarrow> string" where
  "hexdigest w = map (\<lambda>i. hex_digit (unat (drop_bit (4 * i) w))) (rev [0..<32])"

fun join :: "string \<Rightarrow> string list \<Rightarrow> string" where
  "join sep [] = []"
| "join sep [x] = x"
| "join sep (x # y # ys) = x @ sep @ join sep (y # ys)"

definition param_string :: "(string \<times> string) list \<Rightarrow> string" where
  "param_string params =
     (let sorted_params = sort_key fst params
      in join ''&'' (map (\<lambda>(k, v). k @ ''='' @ v) sorted_params))"

definition generate_cache_key ::
  "(string \<Rightarrow> 128 word) \<Rightarrow> string \<Rightarrow> (string \<times> string) list \<Rightarrow> string" where
  "generate_cache_key md5 base_key params =
     (if params = [] then base_key
      else if length (param_string params) > 100
      then base_key @ '':'' @ hexdigest (md5 (param_string params))
      else base_key @ '':'' @ param_string params)"

text \<open>
  The manager over the in-memory backend (the backend \<open>CacheManager()\<close> builds when no
  Redis URL is given), with its hit and miss counters.  A stored value is never
  \<open>None\<close>, so \<open>result is not None\<close> is a hit.
\<close>

record cache_stats =
  hits :: nat
  misses :: nat
  sets :: nat
  deletes :: nat
  errors :: nat

record 'v cache_manager =
  backend :: "'v in_memory_cache"
  stats :: cache_stats

definition new_cache_manager :: "'v cache_manager" where
  "new_cache_manager =
     \<lparr>backend = new_cache 1000,
      stats = \<lparr>hits = 0, misses = 0, sets = 0, deletes = 0, errors = 0\<rparr>\<rparr>"

definition manager_get ::
  "(string \<Rightarrow> 128 word) \<Rightarrow> 'v cache_manager \<Rightarrow> string \<Rightarrow> (string \<times> string) list \<Rightarrow> int
     \<Rightarrow> 'v option \<times> 'v cache_manager" where
  "manager_get md5 m key params now =
     (let cache_key = generate_cache_key md5 key params
      in case cache_get (backend m) cache_key now of
           (Some result, c) \<Rightarrow>
             (Some result, m\<lparr>backend := c, stats := (stats m)\<lparr>hits := hits (stats m) + 1\<rparr>\<rparr>)
         | (None, c) \<Rightarrow>
             (None, m\<lparr>backend := c, stats := (stats m)\<lparr>misses := misses (stats m) + 1\<rparr>\<rparr>))"

definition manager_set ::
  "(string \<Rightarrow> 128 word) \<Rightarrow> 'v cache_manager \<Rightarrow> string \<Rightarrow> 'v \<Rightarrow> int
     \<Rightarrow> (string \<times> string) list \<Rightarrow> int \<Rightarrow> bool \<times> 'v cache_manager" where
  "manager_set md5 m key v ttl params now =
     (let cache_key = generate_cache_key md5 key params
      in case cache_set (backend m) cache_key v ttl now of
           (result, c) \<Rightarrow>
             (result,
              m\<lparr>backend := c,
                stats := (if result then (stats m)\<lparr>sets := sets (stats m) + 1\<rparr>
                          else stats m)\<rparr>))"

section \<open>EmbeddingService.generate\_embedding\<close>

text \<open>
  A character is a code point below 256; \<open>is_space\<close> lists those that
  \<open>str.strip()\<close> and \<open>str.split()\<close> treat as whitespace.
\<close>

definition is_space :: "char \<Rightarrow> bool" where
  "is_space c \<longleftrightarrow>
     (of_char c :: nat) \<in> {9, 10, 11, 12, 13, 28, 29, 30, 31, 32, 133, 160}"

definition strip :: "string \<Rightarrow> string" where
  "strip s = rev (dropWhile is_space (rev (dropWhile is_space s)))"

text \<open>\<open>s.split()\<close>: the maximal runs of characters that are not whitespace.\<close>

fun split_words :: "string \<Rightarrow> string \<Rightarrow> string list" where
  "split_words [] word = (if word = [] then [] else [word])"
| "split_words (c # cs) word =
     (if is_space c then (if word = [] then split_words cs [] else word # split_words cs [])
      else split_words cs (word @ [c]))"

text \<open>
  The service.  \<open>model\<close> is the loaded sentence transformer, given by its \<open>encode\<close>
  function, or \<open>None\<close> before \<open>initialize\<close>; \<open>encode_calls\<close> records the texts
  handed to it.  \<open>emb_cache\<close> is \<open>self.cache\<close>; \<open>lru\<close> is the store of the
  \<open>lru_cache(maxsize=1000)\<close> around \<open>_cached_encode\<close>, most recently used first.
  The timing statistics are left out.
\<close>

record embedding_service =
  model_name :: string
  model :: "(string \<Rightarrow> real list) option"
  model_loaded :: bool
  embedding_dimension :: nat
  emb_cache :: "(string \<times> real list) list"
  lru :: "(string \<times> real list) list"
  embeddings_generated :: nat
  emb_cache_hits :: nat
  emb_cache_misses :: nat
  encode_calls :: "string list"

definition is_ready :: "embedding_service \<Rightarrow> bool" where
  "is_ready s \<longleftrightarrow> model_loaded s \<and> model s \<noteq> None"

definition embedding_cache_key ::
  "(string \<Rightarrow> 128 word) \<Rightarrow> embedding_service \<Rightarrow> string \<Rightarrow> string option \<Rightarrow> string" where
  "embedding_cache_key md5 s text model_version =
     (let key_text = text @ ''_'' @
            (case model_version of
               None \<Rightarrow> model_name s
             | Some v \<Rightarrow> if v = [] then model_name s else v)
      in hexdigest (md5 key_text))"

text \<open>\<open>unicodedata.normalize('NFC', ...)\<close> is the parameter \<open>nfc\<close>.\<close>

definition prepare_text :: "(string \<Rightarrow> string) \<Rightarrow> string \<Rightarrow> string" where
  "prepare_text nfc text =
     (if text = [] then []
      else
        let cleaned = strip text;
            cleaned = nfc cleaned
        in join '' '' (split_words cleaned []))"

definition cached_encode ::
  "embedding_service \<Rightarrow> string \<Rightarrow> py_error + (real list \<times> embedding_service)" where
  "cached_encode s text =
     (case map_of (lru s) text of
        Some emb \<Rightarrow>
          Inr (emb, s\<lparr>lru := (text, emb) # AList.delete text (lru s)\<rparr>)
      | None \<Rightarrow>
          (case model s of
             None \<Rightarrow> Inl RuntimeError
           | Some encode \<Rightarrow>
               if \<not> model_loaded s then Inl RuntimeError
               else
                 let emb = encode text
                 in Inr (emb,
                         s\<lparr>lru := take 1000 ((text, emb) # lru s),
                           encode_calls := encode_calls s @ [text]\<rparr>)))"

definition generate_embedding ::
  "(string \<Rightarrow> 128 word) \<Rightarrow> (string \<Rightarrow> string) \<Rightarrow> embedding_service \<Rightarrow> string
     \<Rightarrow> string option \<Rightarrow> bool \<Rightarrow> (py_error + real list) \<times> embedding_service" where
  "generate_embedding md5 nfc s text model_version use_cache =
     (if \<not> is_ready s then (Inl RuntimeError, s)
      else if text = [] \<or> strip text = [] then
        (Inr (replicate (embedding_dimension s) 0), s)
      else
        let cleaned_text = prepare_text nfc text;
            cache_key = embedding_cache_key md5 s cleaned_text model_version
        in (case (if use_cache then map_of (emb_cache s) cache_key else None) of
              Some emb \<Rightarrow> (Inr emb, s\<lparr>emb_cache_hits := emb_cache_hits s + 1\<rparr>)
            | None \<Rightarrow>
                let s = s\<lparr>emb_cache_misses := emb_cache_misses s + 1\<rparr>
                in (case cached_encode s cleaned_text of
                      Inl e \<Rightarrow> (Inl e, s)
                    | Inr (emb, s) \<Rightarrow>
                        let s = s\<lparr>embeddings_generated := embeddings_generated s + 1\<rparr>;
                            s = (if use_cache
                                 then s\<lparr>emb_cache := AList.update cache_key emb (emb_cache s)\<rparr>
                                 else s)
                        in (Inr emb, s))))"

section \<open>RecommendationEngine\<close>

text \<open>
  The pieces of the f-strings that build the cache keys: \<open>str\<close> of an integer and of
  a Boolean.  \<open>xs[:n]\<close> is \<open>py_take n xs\<close>, which for negative \<open>n\<close> leaves out the
  last \<open>-n\<close> elements.
\<close>

definition digit_char :: "nat \<Rightarrow> char" where
  "digit_char n = ''0123456789'' ! (n mod 10)"

function str_nat :: "nat \<Rightarrow> string" where
  "str_nat n = (if n < 10 then [digit_char n] else str_nat (n div 10) @ [digit_char n])"
  by pat_completeness auto
termination
  by (relation "measure id") auto

declare str_nat.simps [simp del]

definition str_int :: "int \<Rightarrow> string" where
  "str_int i = (if i < 0 then ''-'' @ str_nat (nat (- i)) else str_nat (nat i))"

definition str_bool :: "bool \<Rightarrow> string" where
  "str_bool b = (if b then ''True'' else ''False'')"

definition py_take :: "int \<Rightarrow> 'a list \<Rightarrow> 'a list" where
  "py_take n xs = (if n \<ge> 0 then take (nat n) xs else take (nat (int (length xs) + n)) xs)"

text \<open>
  An interaction as \<open>_get_user_interactions\<close> builds it.  \<open>i_book\<close> is \<open>None\<close> when
  the \<open>book\<close> entry is missing or empty; \<open>i_timestamp\<close> is the parsed time stamp in
  microseconds, \<open>None\<close> when parsing it or subtracting it from \<open>now\<close> raises.  A row
  of the trending query carries the book columns and the two aggregates the code reads.
\<close>

record interaction =
  i_book_id :: string
  i_book :: "book option"
  i_type :: string
  i_timestamp :: "int option"
  i_weight :: real

record trending_row =
  row_book :: book
  purchase_count :: int
  trend_score :: real

text \<open>
  The collaborators of the engine are parameters: the digest function, Python's
  \<open>str\<close> of a float, the cosine distance of the numeric library (the parameter of
  cosine\_similarity), the private helpers that query the Supabase store
  (\<open>_get_book_data\<close>, \<open>_get_or_generate_book_embedding\<close>,
  \<open>_get_candidate_books\<close> with its three exclusion arguments,
  \<open>_get_user_interactions\<close>, \<open>_get_user_purchased_books\<close>, and the raw trending
  query with limit, window, minimum and the time of the call, \<open>None\<close> when it raises),
  the text processor, the embedding of the preference texts (\<open>None\<close> when it raises),
  and the two functions that word the reason of a recommendation.  \<open>supabase\<close> tells
  whether the client exists.
\<close>

record env =
  env_md5 :: "string \<Rightarrow> 128 word"
  str_float :: "real \<Rightarrow> string"
  cosine_distance :: cosine_distance
  supabase :: bool
  get_book_data :: "string \<Rightarrow> book option"
  get_or_generate_book_embedding :: "book \<Rightarrow> real list option"
  get_candidate_books :: "string option \<Rightarrow> string list option \<Rightarrow> string list option \<Rightarrow> book list"
  get_user_interactions :: "string \<Rightarrow> interaction list"
  get_user_purchased_books :: "string \<Rightarrow> string list"
  trending_query :: "int \<Rightarrow> int \<Rightarrow> int \<Rightarrow> int \<Rightarrow> trending_row list option"
  process_book_text :: "book \<Rightarrow> string"
  generate_user_preference_embedding :: "string list \<Rightarrow> real list option"
  generate_similarity_reason :: "book \<Rightarrow> book \<Rightarrow> string"
  generate_personalized_reason :: "user_profile \<Rightarrow> book \<Rightarrow> string"

record rec_stats =
  recommendations_generated :: nat
  cache_hits :: nat
  cache_misses :: nat
  similar_book_requests :: nat
  personalized_requests :: nat
  trending_requests :: nat

record rec_engine =
  cache_manager :: "book list cache_manager option"
  engine_stats :: rec_stats

definition get_from_cache ::
  "env \<Rightarrow> rec_engine \<Rightarrow> string \<Rightarrow> int \<Rightarrow> book list option \<times> rec_engine" where
  "get_from_cache e st key now =
     (case cache_manager st of
        None \<Rightarrow> (None, st)
      | Some m \<Rightarrow>
          (case manager_get (env_md5 e) m key [] now of
             (r, m') \<Rightarrow> (r, st\<lparr>cache_manager := Some m'\<rparr>)))"

definition set_cache ::
  "env \<Rightarrow> rec_engine \<Rightarrow> string \<Rightarrow> book list \<Rightarrow> int \<Rightarrow> int \<Rightarrow> rec_engine" where
  "set_cache e st key data ttl now =
     (case cache_manager st of
        None \<Rightarrow> st
      | Some m \<Rightarrow>
          st\<lparr>cache_manager := Some (snd (manager_set (env_md5 e) m key data ttl [] now))\<rparr>)"

text \<open>\<open>if cached_result:\<close> holds for a list that is neither \<open>None\<close> nor empty.\<close>

definition truthy :: "book list option \<Rightarrow> bool" where
  "truthy r \<longleftrightarrow> r \<noteq> None \<and> r \<noteq> Some []"

definition cached_value :: "book list option \<Rightarrow> book list" where
  "cached_value r = (case r of None \<Rightarrow> [] | Some v \<Rightarrow> v)"

subsection \<open>get\_trending\_books\<close>

definition trending_cache_key :: "int \<Rightarrow> int \<Rightarrow> int \<Rightarrow> string" where
  "trending_cache_key limit time_window_days min_interactions =
     ''trending_'' @ str_int limit @ ''_'' @ str_int time_window_days @ ''_'' @
     str_int min_interactions"

definition trending_book :: "trending_row \<Rightarrow> book" where
  "trending_book row =
     (row_book row)
       \<lparr>similarity_score := Some (min 1 (trend_score row / 100)),
        recommendation_reason :=
          Some (''Trending with '' @ str_int (purchase_count row) @ '' recent purchases'')\<rparr>"

definition get_trending_books ::
  "env \<Rightarrow> rec_engine \<Rightarrow> int \<Rightarrow> int \<Rightarrow> int \<Rightarrow> int \<Rightarrow> book list \<times> rec_engine" where
  "get_trending_books e st limit time_window_days min_interactions now =
     (let st = st\<lparr>engine_stats := (engine_stats st)
                  \<lparr>trending_requests := trending_requests (engine_stats st) + 1\<rparr>\<rparr>;
          cache_key = trending_cache_key limit time_window_days min_interactions
      in case get_from_cache e st cache_key now of
           (cached_result, st) \<Rightarrow>
             if truthy cached_result then
               (cached_value cached_result,
                st\<lparr>engine_stats := (engine_stats st)
                     \<lparr>cache_hits := cache_hits (engine_stats st) + 1\<rparr>\<rparr>)
             else
               let st = st\<lparr>engine_stats := (engine_stats st)
                            \<lparr>cache_misses := cache_misses (engine_stats st) + 1\<rparr>\<rparr>
               in if \<not> supabase e then ([], st)
                  else
                    (case trending_query e limit time_window_days min_interactions now of
                       None \<Rightarrow> ([], st)
                     | Some rows \<Rightarrow>
                         let trending_books = map trending_book rows;
                             st = set_cache e st cache_key trending_books 1800 now;
                             st = st\<lparr>engine_stats := (engine_stats st)
                                    \<lparr>recommendations_generated :=
                                       recommendations_generated (engine_stats st) + 1\<rparr>\<rparr>
                         in (trending_books, st)))"

subsection \<open>get\_similar\_books\<close>

definition similar_cache_key :: "env \<Rightarrow> string \<Rightarrow> int \<Rightarrow> real \<Rightarrow> string" where
  "similar_cache_key e book_id limit min_similarity =
     ''similar_'' @ book_id @ ''_'' @ str_int limit @ ''_'' @ str_float e min_similarity"

fun score_similar ::
  "env \<Rightarrow> book \<Rightarrow> real list \<Rightarrow> real \<Rightarrow> book list \<Rightarrow> py_error + book list" where
  "score_similar e target_book target_embedding min_similarity [] = Inr []"
| "score_similar e target_book target_embedding min_similarity (candidate # rest) =
     (case get_or_generate_book_embedding e candidate of
        None \<Rightarrow> score_similar e target_book target_embedding min_similarity rest
      | Some candidate_embedding \<Rightarrow>
          (case cosine_similarity (cosine_distance e) (Val target_embedding)
                  (Val candidate_embedding) of
             Inl err \<Rightarrow> Inl err
           | Inr similarity \<Rightarrow>
               (case score_similar e target_book target_embedding min_similarity rest of
                  Inl err \<Rightarrow> Inl err
                | Inr scored \<Rightarrow>
                    if similarity \<ge> min_similarity then
                      Inr (candidate
                             \<lparr>similarity_score := Some similarity,
                              recommendation_reason :=
                                Some (generate_similarity_reason e target_book candidate)\<rparr>
                           # scored)
                    else Inr scored)))"

definition get_similar_books ::
  "env \<Rightarrow> rec_engine \<Rightarrow> string \<Rightarrow> int \<Rightarrow> real \<Rightarrow> string list option \<Rightarrow> int
     \<Rightarrow> book list \<times> rec_engine" where
  "get_similar_books e st book_id limit min_similarity exclude_categories now =
     (let st = st\<lparr>engine_stats := (engine_stats st)
                  \<lparr>similar_book_requests := similar_book_requests (engine_stats st) + 1\<rparr>\<rparr>;
          cache_key = similar_cache_key e book_id limit min_similarity
      in case get_from_cache e st cache_key now of
           (cached_result, st) \<Rightarrow>
             if truthy cached_result then
               (cached_value cached_result,
                st\<lparr>engine_stats := (engine_stats st)
                     \<lparr>cache_hits := cache_hits (engine_stats st) + 1\<rparr>\<rparr>)
             else
               let st = st\<lparr>engine_stats := (engine_stats st)
                            \<lparr>cache_misses := cache_misses (engine_stats st) + 1\<rparr>\<rparr>
               in (case get_book_data e book_id of
                     None \<Rightarrow> ([], st)
                   | Some target_book \<Rightarrow>
                       (case get_or_generate_book_embedding e target_book of
                          None \<Rightarrow> ([], st)
                        | Some target_embedding \<Rightarrow>
                            let candidates =
                                  get_candidate_books e (Some book_id) None exclude_categories
                            in (case score_similar e target_book target_embedding
                                       min_similarity candidates of
                                  Inl err \<Rightarrow> ([], st)
                                | Inr similar_books \<Rightarrow>
                                    let similar_books = sort_key (\<lambda>x. - score x) similar_books;
                                        diversified_books =
                                          py_take limit
                                            (diversify_results (py_take (limit * 2) similar_books)
                                               (3 / 10) 3);
                                        st = set_cache e st cache_key diversified_books 3600 now;
                                        st = st\<lparr>engine_stats := (engine_stats st)
                                               \<lparr>recommendations_generated :=
                                                  recommendations_generated (engine_stats st) + 1\<rparr>\<rparr>
                                    in (diversified_books, st)))))"

subsection \<open>\_build\_user\_profile\<close>

text \<open>
  \<open>categories\<close> and \<open>authors\<close> are dictionaries from name to accumulated weight,
  in insertion order.  \<open>book.get("category")\<close> counts when it is a non-empty string.
  \<open>(now - interaction_time).days\<close> is the floor of the difference in days, and
  \<open>int(final_weight)\<close> the floor of a positive weight.
\<close>

definition add_weight :: "string pyopt \<Rightarrow> real \<Rightarrow> (string \<times> real) list \<Rightarrow> (string \<times> real) list" where
  "add_weight key w d =
     (case key of
        PyNone \<Rightarrow> d
      | Val k \<Rightarrow>
          if k = [] then d
          else AList.update k ((case map_of d k of None \<Rightarrow> 0 | Some x \<Rightarrow> x) + w) d)"

fun collect_preferences ::
  "env \<Rightarrow> real \<Rightarrow> int \<Rightarrow> interaction list
     \<Rightarrow> (string \<times> real) list \<times> (string \<times> real) list \<times> string list
     \<Rightarrow> py_error + ((string \<times> real) list \<times> (string \<times> real) list \<times> string list)" where
  "collect_preferences e time_decay_factor now [] acc = Inr acc"
| "collect_preferences e time_decay_factor now (i # rest) (categories, authors, interaction_texts) =
     (case i_book i of
        None \<Rightarrow>
          collect_preferences e time_decay_factor now rest (categories, authors, interaction_texts)
      | Some book \<Rightarrow>
          (case i_timestamp i of
             None \<Rightarrow> Inl TypeError
           | Some interaction_time \<Rightarrow>
               let days_old = (now - interaction_time) div 86400000000;
                   time_weight = max (1 / 10) (1 - (real_of_int days_old * time_decay_factor / 365));
                   final_weight = i_weight i * time_weight;
                   categories = add_weight (dict_get (category book)) final_weight categories;
                   authors = add_weight (dict_get (author book)) final_weight authors;
                   interaction_texts =
                     (if final_weight > 1 / 2
                      then interaction_texts
                             @ replicate (nat \<lfloor>final_weight\<rfloor>) (process_book_text e book)
                      else interaction_texts)
               in collect_preferences e time_decay_factor now rest
                    (categories, authors, interaction_texts)))"

definition build_user_profile_body ::
  "env \<Rightarrow> interaction list \<Rightarrow> real \<Rightarrow> int \<Rightarrow> py_error + user_profile" where
  "build_user_profile_body e interactions time_decay_factor now =
     (case collect_preferences e time_decay_factor now interactions ([], [], []) of
        Inl err \<Rightarrow> Inl err
      | Inr (categories, authors, interaction_texts) \<Rightarrow>
          (case (if interaction_texts \<noteq> []
                 then (case generate_user_preference_embedding e interaction_texts of
                         None \<Rightarrow> Inl RuntimeError
                       | Some v \<Rightarrow> Inr (Val v))
                 else Inr PyNone) of
             Inl err \<Rightarrow> Inl err
           | Inr preference_emb \<Rightarrow>
               let fav_categories = take 5 (sort_key (\<lambda>x. - snd x) categories);
                   fav_authors = take 3 (sort_key (\<lambda>x. - snd x) authors)
               in Inr \<lparr>preference_embedding = Some preference_emb,
                       favorite_categories = Some (map fst fav_categories),
                       favorite_authors = Some (map fst fav_authors),
                       interaction_count = Some (length interactions)\<rparr>))"

definition build_user_profile :: "env \<Rightarrow> interaction list \<Rightarrow> real \<Rightarrow> int \<Rightarrow> user_profile" where
  "build_user_profile e interactions time_decay_factor now =
     (case build_user_profile_body e interactions time_decay_factor now of
        Inl err \<Rightarrow> empty_profile
      | Inr p \<Rightarrow> p)"

subsection \<open>get\_personalized\_recommendations\<close>

definition personalized_cache_key :: "string \<Rightarrow> int \<Rightarrow> bool \<Rightarrow> string" where
  "personalized_cache_key user_id limit exclude_purchased =
     ''personalized_'' @ user_id @ ''_'' @ str_int limit @ ''_'' @ str_bool exclude_purchased"

fun score_personalized :: "env \<Rightarrow> user_profile \<Rightarrow> book list \<Rightarrow> py_error + book list" where
  "score_personalized e profile [] = Inr []"
| "score_personalized e profile (candidate # rest) =
     (case get_or_generate_book_embedding e candidate of
        None \<Rightarrow> score_personalized e profile rest
      | Some candidate_embedding \<Rightarrow>
          (case calculate_user_book_affinity (cosine_distance e) profile
                  (candidate\<lparr>embedding := Some (Val candidate_embedding)\<rparr>) of
             Inl err \<Rightarrow> Inl err
           | Inr affinity \<Rightarrow>
               (case score_personalized e profile rest of
                  Inl err \<Rightarrow> Inl err
                | Inr scored \<Rightarrow>
                    if affinity > 2 / 10 then
                      Inr (candidate
                             \<lparr>similarity_score := Some affinity,
                              recommendation_reason :=
                                Some (generate_personalized_reason e profile candidate)\<rparr>
                           # scored)
                    else Inr scored)))"

definition get_personalized_recommendations ::
  "env \<Rightarrow> rec_engine \<Rightarrow> string \<Rightarrow> int \<Rightarrow> bool \<Rightarrow> real \<Rightarrow> int \<Rightarrow> book list \<times> rec_engine" where
  "get_personalized_recommendations e st user_id limit exclude_purchased time_decay_factor now =
     (let st = st\<lparr>engine_stats := (engine_stats st)
                  \<lparr>personalized_requests := personalized_requests (engine_stats st) + 1\<rparr>\<rparr>;
          cache_key = personalized_cache_key user_id limit exclude_purchased
      in case get_from_cache e st cache_key now of
           (cached_result, st) \<Rightarrow>
             if truthy cached_result then
               (cached_value cached_result,
                st\<lparr>engine_stats := (engine_stats st)
                     \<lparr>cache_hits := cache_hits (engine_stats st) + 1\<rparr>\<rparr>)
             else
               let st = st\<lparr>engine_stats := (engine_stats st)
                            \<lparr>cache_misses := cache_misses (engine_stats st) + 1\<rparr>\<rparr>;
                   user_interactions = get_user_interactions e user_id
               in if user_interactions = [] then get_trending_books e st limit 30 5 now
                  else
                    let profile = build_user_profile e user_interactions time_decay_factor now;
                        exclude_book_ids =
                          (if exclude_purchased then get_user_purchased_books e user_id else []);
                        candidates = get_candidate_books e None (Some exclude_book_ids) None
                    in (case score_personalized e profile candidates of
                          Inl err \<Rightarrow> ([], st)
                        | Inr recommendations \<Rightarrow>
                            let recommendations = sort_key (\<lambda>x. - score x) recommendations;
                                diversified_recs =
                                  py_take limit
                                    (diversify_results (py_take (limit * 2) recommendations)
                                       (4 / 10) 3);
                                st = set_cache e st cache_key diversified_recs 1800 now;
                                st = st\<lparr>engine_stats := (engine_stats st)
                                       \<lparr>recommendations_generated :=
                                          recommendations_generated (engine_stats st) + 1\<rparr>\<rparr>
                            in (diversified_recs, st)))"

text \<open>
  What the cache holds for a key at a given time: the value of a live entry.  And the
  entry stored under a key in the engine's cache, if the engine has a cache manager.
\<close>

definition live_value :: "'v in_memory_cache \<Rightarrow> string \<Rightarrow> int \<Rightarrow> 'v option" where
  "live_value c key now =
     (case map_of (cache c) key of
        None \<Rightarrow> None
      | Some entry \<Rightarrow> if expires_at entry > now then Some (entry_value entry) else None)"

definition engine_live_value :: "rec_engine \<Rightarrow> string \<Rightarrow> int \<Rightarrow> book list option" where
  "engine_live_value st key now =
     (case cache_manager st of None \<Rightarrow> None | Some m \<Rightarrow> live_value (backend m) key now)"

definition engine_entry :: "rec_engine \<Rightarrow> string \<Rightarrow> book list cache_entry option" where
  "engine_entry st key =
     (case cache_manager st of None \<Rightarrow> None | Some m \<Rightarrow> map_of (cache (backend m)) key)"

definition new_engine :: "book list cache_manager option \<Rightarrow> rec_engine" where
  "new_engine cm =
     \<lparr>cache_manager = cm,
      engine_stats = \<lparr>recommendations_generated = 0, cache_hits = 0, cache_misses = 0,
                      similar_book_requests = 0, personalized_requests = 0,
                      trending_requests = 0\<rparr>\<rparr>"

text \<open>
  The list \<open>get_trending_books\<close> returns, as a function of what the cache holds under
  its key and of the store.
\<close>

definition trending_result :: "env \<Rightarrow> book list option \<Rightarrow> int \<Rightarrow> int \<Rightarrow> int \<Rightarrow> int \<Rightarrow> book list" where
  "trending_result e cached limit time_window_days min_interactions now =
     (if truthy cached then cached_value cached
      else if \<not> supabase e then []
      else (case trending_query e limit time_window_days min_interactions now of
              None \<Rightarrow> []
            | Some rows \<Rightarrow> map trending_book rows))"

section \<open>Example engines and stores\<close>

text \<open>
  A loaded embedding service of dimension 3.  A store with a client and no rows, whose
  trending query finds nothing.  A store with one other book, of category Fiction, which
  the candidate query leaves out when Fiction is excluded; all embeddings are \<open>[1, 0]\<close>.
  An engine whose cache holds a personalized result for user \<open>u1\<close>, written at time 0.
\<close>

definition example_service :: embedding_service where
  "example_service =
     \<lparr>model_name = ''paraphrase-multilingual-MiniLM-L12-v2'',
      model = Some (\<lambda>text. [1, 2, 3]), model_loaded = True, embedding_dimension = 3,
      emb_cache = [], lru = [], embeddings_generated = 0, emb_cache_hits = 0,
      emb_cache_misses = 0, encode_calls = []\<rparr>"

definition base_env :: env where
  "base_env =
     \<lparr>env_md5 = (\<lambda>s. 0), str_float = (\<lambda>x. ''0.3''), cosine_distance = exact_cosine,
      supabase = True,
      get_book_data = (\<lambda>i. None), get_or_generate_book_embedding = (\<lambda>b. None),
      get_candidate_books = (\<lambda>i ids cats. []), get_user_interactions = (\<lambda>u. []),
      get_user_purchased_books = (\<lambda>u. []), trending_query = (\<lambda>l w m now. Some []),
      process_book_text = (\<lambda>b. []), generate_user_preference_embedding = (\<lambda>ts. None),
      generate_similarity_reason = (\<lambda>a b. ''Recommended because of similar content themes''),
      generate_personalized_reason = (\<lambda>p b. ''Recommended because matches your reading preferences'')\<rparr>"

definition fiction_env :: env where
  "fiction_env =
     base_env
       \<lparr>get_book_data := (\<lambda>i. Some (book_with_id i)),
        get_or_generate_book_embedding := (\<lambda>b. Some [1, 0]),
        get_candidate_books :=
          (\<lambda>i ids cats.
             if cats = Some [''Fiction''] then []
             else [(book_with_id ''c1'')\<lparr>category := Some (Val ''Fiction'')\<rparr>])\<rparr>"

definition fiction_candidate :: book where
  "fiction_candidate =
     (book_with_id ''c1'')
       \<lparr>category := Some (Val ''Fiction''), similarity_score := Some 1,
        recommendation_reason := Some ''Recommended because of similar content themes''\<rparr>"

definition warm_engine :: rec_engine where
  "warm_engine =
     set_cache base_env (new_engine (Some new_cache_manager))
       (personalized_cache_key ''u1'' 10 True) [book_with_id ''b1''] 1800 0"

text \<open>One view of a Fiction book, weight 0.5, at time 0.\<close>

definition view_interaction :: interaction where
  "view_interaction =
     \<lparr>i_book_id = ''b0'',
      i_book = Some ((book_with_id ''b0'')\<lparr>category := Some (Val ''Fiction'')\<rparr>),
      i_type = ''view'', i_timestamp = Some 0, i_weight = 1 / 2\<rparr>"

section \<open>Properties of cosine\_similarity\<close>



lemma cosine_similarity_body_range:
  "cosine_similarity_body cdist va vb = Inr r \<Longrightarrow> 0 \<le> r \<and> r \<le> 1"
  by (auto simp: cosine_similarity_body_def Let_def
           split: pyopt.splits if_splits option.splits)

text \<open>
  C6.  cosine\_similarity never raises: for every pair of arguments (lists of numbers,
  or \<open>None\<close>) and whatever the library computes, it returns a number, that number lies
  in \<open>[0, 1]\<close>, and it is exactly 0 when either vector is empty or the two lengths
  differ.
\<close>

theorem cosine_similarity_fails_soft:
  "\<exists>r. cosine_similarity cdist va vb = Inr r \<and> 0 \<le> r \<and> r \<le> 1 \<and>
     ((va = Val [] \<or> vb = Val [] \<or>
       (\<exists>a b. va = Val a \<and> vb = Val b \<and> length a \<noteq> length b)) \<longrightarrow> r = 0)"
proof (cases "cosine_similarity_body cdist va vb")
  case (Inl e)
  then have "cosine_similarity cdist va vb = Inr 0"
    by (simp add: cosine_similarity_def catch_def)
  then show ?thesis by simp
next
  case (Inr r)
  have eq: "cosine_similarity cdist va vb = Inr r"
    using Inr by (simp add: cosine_similarity_def catch_def)
  have rng: "0 \<le> r \<and> r \<le> 1"
    using Inr cosine_similarity_body_range by blast
  have zero: "(va = Val [] \<or> vb = Val [] \<or>
       (\<exists>a b. va = Val a \<and> vb = Val b \<and> length a \<noteq> length b)) \<longrightarrow> r = 0"
    using Inr
    by (auto simp: cosine_similarity_body_def split: pyopt.splits if_splits)
  show ?thesis using eq rng zero by blast
qed

theorem cosine_similarity_fails_soft_witness:
  "cosine_similarity exact_cosine (Val [1, 2]) (Val [1]) = Inr 0"
  using cosine_similarity_fails_soft [of exact_cosine "Val [1, 2]" "Val [1]"]
  by (simp add: cosine_similarity_def cosine_similarity_body_def catch_def)

lemma dot_self_nonneg: "0 \<le> dot a a"
  unfolding dot_def by (induction a) simp_all

lemma dot_self_pos: "\<exists>x\<in>set a. x \<noteq> 0 \<Longrightarrow> 0 < dot a a"
proof (induction a)
  case Nil
  then show ?case by simp
next
  case (Cons x xs)
  have step: "dot (x # xs) (x # xs) = x * x + dot xs xs"
    by (simp add: dot_def)
  show ?case
  proof (cases "x = 0")
    case True
    then have "\<exists>y\<in>set xs. y \<noteq> 0" using Cons.prems by auto
    then have "0 < dot xs xs" by (rule Cons.IH)
    then show ?thesis using step True by simp
  next
    case False
    then have "0 < x * x" by (simp add: zero_less_mult_iff less_le not_le)
    then show ?thesis using step dot_self_nonneg [of xs] by linarith
  qed
qed

lemma exact_cosine_self: "0 < dot a a \<Longrightarrow> exact_cosine a a = Some 0"
  by (simp add: exact_cosine_def Let_def real_sqrt_mult)


lemma cosine_similarity_self_nan:
  assumes "a \<noteq> []" and "cdist a a = None"
  shows "cosine_similarity cdist (Val a) (Val a) = Inr 0"
  using assms by (simp add: cosine_similarity_def cosine_similarity_body_def catch_def)

text \<open>
  In exact arithmetic the distance of a vector with a nonzero component to itself is 0,
  and that of the zero vector is a NaN.
\<close>

lemma exact_cosine_similarity_self:
  assumes "\<exists>x\<in>set a. x \<noteq> 0"
  shows "cosine_similarity exact_cosine (Val a) (Val a) = Inr 1"
proof -
  have "a \<noteq> []" using assms by auto
  moreover have "exact_cosine a a = Some 0"
    using assms dot_self_pos exact_cosine_self by blast
  ultimately show ?thesis
    by (simp add: cosine_similarity_def cosine_similarity_body_def catch_def)
qed

lemma exact_cosine_similarity_zero_vector:
  "cosine_similarity exact_cosine (Val [0, 0]) (Val [0, 0]) = Inr 0"
  by (simp add: cosine_similarity_def cosine_similarity_body_def catch_def
        exact_cosine_def dot_def)





section \<open>Properties of diversify\_results\<close>

text \<open>
  C1 at a failing input: four candidates without a \<open>category\<close> key and
  \<open>max_per_category = 3\<close>.  All four fall into the \<open>uncategorized\<close> bucket and all
  four are returned: the count that enforces the limit compares
  \<open>item.get("category")\<close>, which is \<open>None\<close> for them, with the bucket's key.
\<close>

theorem diversify_results_uncategorized_unbounded:
  "count_in_bucket (Val ''uncategorized'')
     (diversify_results
        [(book_with_id ''a'')\<lparr>similarity_score := Some (9 / 10)\<rparr>,
         (book_with_id ''b'')\<lparr>similarity_score := Some (8 / 10)\<rparr>,
         (book_with_id ''c'')\<lparr>similarity_score := Some (7 / 10)\<rparr>,
         (book_with_id ''d'')\<lparr>similarity_score := Some (6 / 10)\<rparr>]
        (3 / 10) 3) = 4"
  by code_simp

lemma max_by_score_mem: "max_by_score b xs \<in> set (b # xs)"
  by (induction xs arbitrary: b) auto

lemma bucket_keyed: "category x \<noteq> None \<Longrightarrow> dict_get (category x) = bucket x"
  by (auto simp: bucket_def dict_get_def dict_get_default_def)

lemma count_in_bucket_append:
  "count_in_bucket c (d @ [x]) = count_in_bucket c d + (if bucket x = c then 1 else 0)"
  by (simp add: count_in_bucket_def)

lemma group_by_category_ok:
  "groups_ok groups \<Longrightarrow> groups_ok (group_by_category cs groups)"
proof (induction cs arbitrary: groups)
  case Nil
  then show ?case by simp
next
  case (Cons x cs)
  let ?cat = "dict_get_default (category x) ''uncategorized''"
  let ?items = "(case map_of groups ?cat of None \<Rightarrow> [] | Some its \<Rightarrow> its)"
  have old: "\<forall>y \<in> set ?items. bucket y = ?cat"
    using Cons.prems by (auto simp: groups_ok_def split: option.splits dest!: map_of_SomeD)
  have "groups_ok (AList.update ?cat (?items @ [x]) groups)"
    unfolding groups_ok_def
  proof (intro conjI)
    show "distinct (map fst (AList.update ?cat (?items @ [x]) groups))"
      using Cons.prems by (simp add: groups_ok_def distinct_update)
    show "\<forall>(c, items) \<in> set (AList.update ?cat (?items @ [x]) groups).
            \<forall>y \<in> set items. bucket y = c"
    proof (clarify)
      fix c items y
      assume mem: "(c, items) \<in> set (AList.update ?cat (?items @ [x]) groups)"
        and y: "y \<in> set items"
      have "map_of (AList.update ?cat (?items @ [x]) groups) c = Some items"
        using mem Cons.prems by (simp add: groups_ok_def distinct_update)
      then have cases: "(c = ?cat \<and> items = ?items @ [x]) \<or> (c \<noteq> ?cat \<and> map_of groups c = Some items)"
        by (auto simp: update_conv' split: if_splits)
      show "bucket y = c"
      proof (cases "c = ?cat")
        case True
        then have "items = ?items @ [x]" using cases by simp
        then show ?thesis using y old True by (auto simp: bucket_def)
      next
        case False
        then have "(c, items) \<in> set groups" using cases by (auto dest: map_of_SomeD)
        then show ?thesis using Cons.prems y by (auto simp: groups_ok_def)
      qed
    qed
  qed
  then show ?case using Cons.IH by (simp add: Let_def)
qed

lemma group_by_category_subset:
  "(c, items) \<in> set (group_by_category cs groups) \<Longrightarrow> x \<in> set items \<Longrightarrow>
     x \<in> set cs \<or> (\<exists>c' items'. (c', items') \<in> set groups \<and> x \<in> set items')"
proof (induction cs arbitrary: groups)
  case Nil
  then show ?case by auto
next
  case (Cons y cs)
  let ?cat = "dict_get_default (category y) ''uncategorized''"
  let ?items = "(case map_of groups ?cat of None \<Rightarrow> [] | Some its \<Rightarrow> its)"
  from Cons.prems have "(c, items) \<in> set (group_by_category cs (AList.update ?cat (?items @ [y]) groups))"
    by (simp add: Let_def)
  from Cons.IH [OF this Cons.prems(2)]
  consider "x \<in> set cs"
    | c' items' where "(c', items') \<in> set (AList.update ?cat (?items @ [y]) groups)" "x \<in> set items'"
    by blast
  then show ?case
  proof cases
    case 1
    then show ?thesis by simp
  next
    case 2
    from 2(1) have "(c', items') \<in> set groups \<or> items' = ?items @ [y]"
      by (induction groups) (auto split: if_splits)
    then show ?thesis
    proof
      assume "(c', items') \<in> set groups"
      then show ?thesis using 2(2) by blast
    next
      assume eq: "items' = ?items @ [y]"
      show ?thesis
      proof (cases "x = y")
        case True
        then show ?thesis by simp
      next
        case False
        then have "x \<in> set ?items" using 2(2) eq by simp
        then obtain its where "map_of groups ?cat = Some its" "x \<in> set its"
          by (cases "map_of groups ?cat") auto
        then have "(?cat, its) \<in> set groups \<and> x \<in> set its"
          by (auto dest: map_of_SomeD)
        then show ?thesis by blast
      qed
    qed
  qed
qed


lemma group_items_absent: "c \<notin> fst ` set groups \<Longrightarrow> group_items groups c = []"
  using map_of_eq_None_iff [of groups c] by (simp add: group_items_def)

lemma diversify_round_keys:
  "diversify_round k groups d r a = (groups', d', r', a') \<Longrightarrow> map fst groups' = map fst groups"
proof (induction groups arbitrary: d r a groups' d' r' a')
  case Nil
  then show ?case by simp
next
  case (Cons g groups)
  obtain c items where g: "g = (c, items)" by (cases g)
  show ?case
  proof (cases "items = [] \<or> r \<le> 0")
    case True
    then obtain gs where "diversify_round k groups d r a = (gs, d', r', a')"
      "groups' = (c, items) # gs"
      using Cons.prems g by (auto split: prod.splits)
    then show ?thesis using Cons.IH g by auto
  next
    case False
    then obtain gs dd its where "diversify_round k groups dd (r - 1) (a + 1) = (gs, d', r', a')"
      "groups' = (c, its) # gs"
      using Cons.prems g by (auto simp: Let_def split: prod.splits)
    then show ?thesis using Cons.IH g by auto
  qed
qed

text \<open>One round keeps the bound of a bucket whose items all carry the key.\<close>

lemma diversify_round_bounded:
  assumes "diversify_round k groups d r a = (groups', d', r', a')"
    and "groups_ok groups"
    and "1 \<le> k"
    and "keyed c d"
    and "\<forall>(c', items) \<in> set groups. keyed c items"
    and "bounded k c groups d"
  shows "groups_ok groups' \<and> keyed c d' \<and> (\<forall>(c', items) \<in> set groups'. keyed c items) \<and>
         (c \<in> fst ` set groups \<longrightarrow> bounded k c groups' d') \<and>
         (c \<notin> fst ` set groups \<longrightarrow> count_in_bucket c d' = count_in_bucket c d)"
  using assms
proof (induction groups arbitrary: d r a groups' d' r' a')
  case Nil
  then show ?case by (simp add: bounded_def)
next
  case (Cons g groups)
  obtain c0 items where g: "g = (c0, items)" by (cases g)
  have ok_tl: "groups_ok groups" and c0_new: "c0 \<notin> fst ` set groups"
    and items_b: "\<forall>x \<in> set items. bucket x = c0"
    using Cons.prems(2) g by (auto simp: groups_ok_def)
  have keyed_tl: "\<forall>(c', its) \<in> set groups. keyed c its" and keyed_items: "keyed c items"
    using Cons.prems(5) g by auto
  show ?case
  proof (cases "items = [] \<or> r \<le> 0")
    case True
    then obtain gs where run: "diversify_round k groups d r a = (gs, d', r', a')"
      and gs: "groups' = (c0, items) # gs"
      using Cons.prems(1) g by (auto split: prod.splits)
    have keys: "map fst gs = map fst groups" using run by (rule diversify_round_keys)
    have bnd_tl: "bounded k c groups d" if "c \<noteq> c0"
      using Cons.prems(6) that g by (simp add: bounded_def group_items_def)
    have bnd_tl': "bounded k c groups d" if "c \<notin> fst ` set groups" "int (count_in_bucket c d) \<le> k"
      using that group_items_absent [of c groups] by (auto simp: bounded_def)
    have cnt_le: "int (count_in_bucket c d) \<le> k" using Cons.prems(6) by (auto simp: bounded_def)
    have bt: "bounded k c groups d"
    proof (cases "c = c0")
      case True
      then show ?thesis using bnd_tl' c0_new cnt_le by simp
    next
      case False
      then show ?thesis using bnd_tl by simp
    qed
    have IH: "groups_ok gs \<and> keyed c d' \<and> (\<forall>(c', items) \<in> set gs. keyed c items) \<and>
         (c \<in> fst ` set groups \<longrightarrow> bounded k c gs d') \<and>
         (c \<notin> fst ` set groups \<longrightarrow> count_in_bucket c d' = count_in_bucket c d)"
      using Cons.IH [OF run ok_tl Cons.prems(3) Cons.prems(4) keyed_tl bt] .
    have ok': "groups_ok groups'"
      using IH keys gs c0_new items_b
      by (auto simp: groups_ok_def)
    have kd: "\<forall>(c', its) \<in> set groups'. keyed c its"
      using IH gs keyed_items by auto
    have b1: "bounded k c groups' d'" if "c \<in> fst ` set (g # groups)"
    proof (cases "c = c0")
      case True
      then have "count_in_bucket c d' = count_in_bucket c d" using IH c0_new by simp
      then show ?thesis using Cons.prems(6) True gs g
        by (simp add: bounded_def group_items_def)
    next
      case False
      then have "c \<in> fst ` set groups" using that g by auto
      then have "bounded k c gs d'" using IH by simp
      then show ?thesis using False gs by (simp add: bounded_def group_items_def)
    qed
    have b2: "count_in_bucket c d' = count_in_bucket c d" if "c \<notin> fst ` set (g # groups)"
      using that IH by auto
    show ?thesis using ok' IH kd b1 b2 by blast
  next
    case False
    define best where "best = max_by_score (hd items) (tl items)"
    define d1 where "d1 = d @ [best]"
    define its where "its = (if int (length (filter (\<lambda>item. dict_get (category item) = c0) d1)) \<ge> k
                             then [] else remove1 best items)"
    have best_mem: "best \<in> set items"
      using False max_by_score_mem [of "hd items" "tl items"] by (auto simp: best_def)
    then have best_b: "bucket best = c0" using items_b by simp
    obtain gs where run: "diversify_round k groups d1 (r - 1) (a + 1) = (gs, d', r', a')"
      and gs: "groups' = (c0, its) # gs"
      using Cons.prems(1) g False
      by (auto simp: Let_def best_def d1_def its_def split: prod.splits)
    have keys: "map fst gs = map fst groups" using run by (rule diversify_round_keys)
    have its_sub: "set its \<subseteq> set items"
      using set_remove1_subset [of best items] by (auto simp: its_def)
    have kd1: "keyed c d1"
      using Cons.prems(4) keyed_items best_mem by (auto simp: keyed_def d1_def)
    have cnt1: "count_in_bucket c d1 = count_in_bucket c d + (if c0 = c then 1 else 0)"
      using best_b by (simp add: d1_def count_in_bucket_append)
    have cnt_code: "length (filter (\<lambda>item. dict_get (category item) = c) d1) \<ge> count_in_bucket c d1"
    proof -
      have "\<And>x. x \<in> set d1 \<Longrightarrow> bucket x = c \<Longrightarrow> dict_get (category x) = c"
        using kd1 bucket_keyed by (auto simp: keyed_def)
      then have "filter (\<lambda>x. bucket x = c) d1
                   = filter (\<lambda>x. bucket x = c) (filter (\<lambda>item. dict_get (category item) = c) d1)"
        by (auto intro: filter_cong)
      then show ?thesis
        unfolding count_in_bucket_def
        by (metis length_filter_le)
    qed
    have bt: "bounded k c groups d1"
    proof (cases "c = c0")
      case True
      have "items \<noteq> []" using False by simp
      then have "int (count_in_bucket c d) < k"
        using Cons.prems(6) True g by (auto simp: bounded_def group_items_def)
      then have "int (count_in_bucket c d1) \<le> k" using cnt1 True by simp
      moreover have "group_items groups c = []"
        using c0_new True group_items_absent [of c groups] by simp
      ultimately show ?thesis by (simp add: bounded_def)
    next
      case False
      then show ?thesis using Cons.prems(6) g cnt1 by (simp add: bounded_def group_items_def)
    qed
    have IH: "groups_ok gs \<and> keyed c d' \<and> (\<forall>(c', items) \<in> set gs. keyed c items) \<and>
         (c \<in> fst ` set groups \<longrightarrow> bounded k c gs d') \<and>
         (c \<notin> fst ` set groups \<longrightarrow> count_in_bucket c d' = count_in_bucket c d1)"
      using Cons.IH [OF run ok_tl Cons.prems(3) kd1 keyed_tl bt] .
    have ok': "groups_ok groups'"
      using IH keys gs c0_new items_b its_sub
      by (auto simp: groups_ok_def)
    have kd: "\<forall>(c', its) \<in> set groups'. keyed c its"
      using IH gs keyed_items its_sub by (auto simp: keyed_def)
    have b1: "bounded k c groups' d'" if "c \<in> fst ` set (g # groups)"
    proof (cases "c = c0")
      case True
      then have eq: "count_in_bucket c d' = count_in_bucket c d1" using IH c0_new by simp
      have "items \<noteq> []" using False by simp
      then have lt: "int (count_in_bucket c d) < k"
        using Cons.prems(6) True g by (auto simp: bounded_def group_items_def)
      show ?thesis
      proof (cases "int (count_in_bucket c d1) < k")
        case True
        then show ?thesis using eq by (simp add: bounded_def)
      next
        case nlt: False
        then have "int (count_in_bucket c d1) = k" using lt cnt1 True by simp
        then have "int (length (filter (\<lambda>item. dict_get (category item) = c0) d1)) \<ge> k"
          using cnt_code True by simp
        then have "its = []" by (simp add: its_def)
        then show ?thesis using eq \<open>int (count_in_bucket c d1) = k\<close> gs True
          by (simp add: bounded_def group_items_def)
      qed
    next
      case False
      then have "c \<in> fst ` set groups" using that g by auto
      then have "bounded k c gs d'" using IH by simp
      then show ?thesis using False gs by (simp add: bounded_def group_items_def)
    qed
    have b2: "count_in_bucket c d' = count_in_bucket c d" if "c \<notin> fst ` set (g # groups)"
    proof -
      have "c \<noteq> c0" "c \<notin> fst ` set groups" using that g by auto
      then show ?thesis using IH cnt1 by simp
    qed
    show ?thesis using ok' IH kd b1 b2 by blast
  qed
qed


lemma diversify_round_invariant:
  assumes "diversify_round k groups d r a = (groups', d', r', a')"
    and "groups_ok groups" and "1 \<le> k" and "keyed c d"
    and "\<forall>(c', items) \<in> set groups. keyed c items"
    and "bounded k c groups d"
  shows "groups_ok groups' \<and> keyed c d' \<and> (\<forall>(c', items) \<in> set groups'. keyed c items) \<and>
         bounded k c groups' d'"
proof -
  note inv = diversify_round_bounded [OF assms]
  have keys: "map fst groups' = map fst groups"
    using assms(1) by (rule diversify_round_keys)
  have "bounded k c groups' d'"
  proof (cases "c \<in> fst ` set groups")
    case True
    then show ?thesis using inv by simp
  next
    case False
    then have eq: "count_in_bucket c d' = count_in_bucket c d" using inv by simp
    have "fst ` set groups' = fst ` set groups"
      using keys by (metis image_set)
    then have "group_items groups' c = []"
      using False group_items_absent [of c groups'] by simp
    moreover have "int (count_in_bucket c d) \<le> k"
      using assms(6) by (auto simp: bounded_def)
    ultimately show ?thesis using eq by (simp add: bounded_def)
  qed
  then show ?thesis using inv by simp
qed

lemma diversify_loop_bounded:
  "groups_ok groups \<Longrightarrow> 1 \<le> k \<Longrightarrow> keyed c d \<Longrightarrow>
   \<forall>(c', items) \<in> set groups. keyed c items \<Longrightarrow> bounded k c groups d \<Longrightarrow>
   int (count_in_bucket c (diversify_loop k groups d r)) \<le> k"
proof (induction k groups d r rule: diversify_loop.induct)
  case (1 k groups d r)
  have le: "int (count_in_bucket c d) \<le> k"
    using "1.prems"(5) by (auto simp: bounded_def)
  show ?case
  proof (cases "r > 0 \<and> list_ex (\<lambda>items. items \<noteq> []) (map snd groups)")
    case False
    have "diversify_loop k groups d r = d"
      by (subst diversify_loop.simps) (use False in auto)
    then show ?thesis using le by simp
  next
    case True
    obtain groups' d' r' a' where run: "diversify_round k groups d r 0 = (groups', d', r', a')"
      by (cases "diversify_round k groups d r 0") auto
    have inv: "groups_ok groups' \<and> keyed c d' \<and> (\<forall>(c', items) \<in> set groups'. keyed c items) \<and>
         bounded k c groups' d'"
      using diversify_round_invariant [OF run "1.prems"(1,2,3,4,5)] .
    show ?thesis
    proof (cases "a' = 0")
      case z: True
      have "diversify_loop k groups d r = d'"
        by (subst diversify_loop.simps) (use True run z in auto)
      then show ?thesis using inv by (auto simp: bounded_def)
    next
      case nz: False
      have eq: "diversify_loop k groups d r = diversify_loop k groups' d' r'"
        by (subst diversify_loop.simps) (use True run nz in auto)
      have "int (count_in_bucket c (diversify_loop k groups' d' r')) \<le> k"
        using "1.IH" [OF True run [symmetric] refl refl nz] inv "1.prems"(2) by blast
      then show ?thesis using eq by simp
    qed
  qed
qed

lemma count_in_bucket_sort_key: "count_in_bucket c (sort_key f xs) = count_in_bucket c xs"
  by (simp add: count_in_bucket_def filter_sort)

text \<open>
  Where the limit holds: for \<open>max_per_category \<ge> 1\<close> and every bucket whose
  candidates all carry a \<open>category\<close> key, the result has at most
  \<open>max_per_category\<close> items of that bucket.
\<close>

lemma diversify_results_bounded:
  assumes "1 \<le> k" and "\<forall>x \<in> set candidates. bucket x = c \<longrightarrow> category x \<noteq> None"
  shows "int (count_in_bucket c (diversify_results candidates f k)) \<le> k"
proof (cases "candidates = []")
  case True
  then show ?thesis using assms(1) by (simp add: diversify_results_def count_in_bucket_def)
next
  case False
  let ?groups = "group_by_category candidates []"
  have ok: "groups_ok ?groups"
    by (rule group_by_category_ok) (simp add: groups_ok_def)
  have sub: "\<forall>(c', items) \<in> set ?groups. keyed c items"
  proof (clarify)
    fix c' items
    assume "(c', items) \<in> set ?groups"
    then have "\<forall>x \<in> set items. x \<in> set candidates"
      using group_by_category_subset [of c' items candidates "[]"] by auto
    then show "keyed c items" using assms(2) by (auto simp: keyed_def)
  qed
  have "int (count_in_bucket c (diversify_loop k ?groups [] (int (length candidates)))) \<le> k"
    by (rule diversify_loop_bounded [OF ok assms(1) _ sub])
       (use assms(1) in \<open>simp_all add: keyed_def bounded_def count_in_bucket_def\<close>)
  then show ?thesis
    using False by (simp add: diversify_results_def Let_def count_in_bucket_sort_key)
qed

section \<open>Properties of calculate\_user\_book\_affinity\<close>

lemma match_loop_from_partial:
  "match_loop partial favs target partial \<in> {partial, 1}"
  by (induction favs) auto

lemma match_loop_hit:
  assumes "\<exists>f\<in>set favs. lower f = target \<or> py_in (lower f) target \<or> py_in target (lower f)"
    and "m = 0 \<or> m = partial" and "0 \<le> partial"
  shows "match_loop partial favs target m \<in> {partial, 1}"
  using assms
proof (induction favs arbitrary: m)
  case Nil
  then show ?case by simp
next
  case (Cons fav favs)
  have mx: "max m partial = partial" using Cons.prems by auto
  show ?case
  proof (cases "lower fav = target")
    case True
    then show ?thesis by simp
  next
    case False
    note ne = this
    show ?thesis
    proof (cases "py_in (lower fav) target \<or> py_in target (lower fav)")
      case True
      then show ?thesis
        using ne mx match_loop_from_partial [of partial favs target] by simp
    next
      case False
      then have "\<exists>f\<in>set favs. lower f = target \<or> py_in (lower f) target \<or> py_in target (lower f)"
        using Cons.prems(1) ne by auto
      then have "match_loop partial favs target m \<in> {partial, 1}"
        using Cons.IH Cons.prems by blast
      then show ?thesis using ne False by simp
    qed
  qed
qed

text \<open>
  C2 as stated fails: the profile has no preference embedding and its favourite category
  is the book's, so the category match is 1, but the author component is evaluated too
  and the score is \<open>0.3 / (0.3 + 0.2) = 0.6\<close>.
\<close>

theorem affinity_category_counterexample:
  "calculate_user_book_affinity exact_cosine
     (empty_profile\<lparr>favorite_categories := Some [''Fiction''],
                    favorite_authors := Some [''Alice'']\<rparr>)
     ((book_with_id ''b1'')\<lparr>category := Some (Val ''Fiction''),
                             author := Some (Val ''Bob'')\<rparr>) = Inr (3 / 5) \<and>
   match_loop (7 / 10) [''Fiction''] (lower ''Fiction'') 0 = 1"
  by (simp add: calculate_user_book_affinity_def calculate_user_book_affinity_body_def
        catch_def content_component_def category_component_def author_component_def
        lower_def char_lower_def upper_chars_def lower_chars_def py_in_def empty_profile_def book_with_id_def)

text \<open>
  C2, amended.  For a profile without a \<open>preference_embedding\<close> key, with favourite
  categories, and a book with a category, when the author component is not evaluated (the
  profile has no favourite authors or the book no author), the affinity is the
  category-match value itself: the category term divided by its own weight 0.3.  When a
  favourite equals the book's category up to case, or one contains the other, that value
  is 0.7 or 1, hence not zero.
\<close>

theorem affinity_category_only:
  assumes "preference_embedding p = None"
    and "favorite_categories p = Some favs"
    and "category b = Some (Val c)"
    and "favorite_authors p = None \<or> author b = None"
  shows "calculate_user_book_affinity cdist p b = Inr (match_loop (7 / 10) favs (lower c) 0) \<and>
     ((\<exists>f\<in>set favs. lower f = lower c \<or> py_in (lower f) (lower c) \<or> py_in (lower c) (lower f))
        \<longrightarrow> match_loop (7 / 10) favs (lower c) 0 \<in> {7 / 10, 1})"
proof -
  have content: "content_component cdist p b = Inr (0, 0)"
    using assms(1) by (simp add: content_component_def)
  have cat: "category_component p b (0, 0)
               = Inr (match_loop (7 / 10) favs (lower c) 0 * (3 / 10), 3 / 10)"
    using assms(2,3) by (simp add: category_component_def)
  have auth: "author_component p b (x, y) = Inr (x, y)" for x y
    using assms(4) by (auto simp: author_component_def split: option.splits)
  have "calculate_user_book_affinity cdist p b = Inr (match_loop (7 / 10) favs (lower c) 0)"
    by (simp add: calculate_user_book_affinity_def calculate_user_book_affinity_body_def
          catch_def content cat auth)
  moreover have "(\<exists>f\<in>set favs. lower f = lower c \<or> py_in (lower f) (lower c)
                     \<or> py_in (lower c) (lower f))
        \<longrightarrow> match_loop (7 / 10) favs (lower c) 0 \<in> {7 / 10, 1}"
    using match_loop_hit [of favs "lower c" 0 "7 / 10"] by simp
  ultimately show ?thesis by blast
qed

theorem affinity_category_only_witness:
  "calculate_user_book_affinity exact_cosine
     (empty_profile\<lparr>favorite_categories := Some [''Fiction'']\<rparr>)
     ((book_with_id ''b1'')\<lparr>category := Some (Val ''fiction''),
                             author := Some (Val ''Bob'')\<rparr>) = Inr 1"
  using affinity_category_only
    [of "empty_profile\<lparr>favorite_categories := Some [''Fiction'']\<rparr>" "[''Fiction'']"
        "(book_with_id ''b1'')\<lparr>category := Some (Val ''fiction''),
                                author := Some (Val ''Bob'')\<rparr>" "''fiction''" exact_cosine]
  by (simp add: empty_profile_def book_with_id_def lower_def char_lower_def upper_chars_def lower_chars_def)

text \<open>
  The profiles of \_build\_user\_profile always carry the three keys; when no interaction
  qualifies for the text pool the key \<open>preference_embedding\<close> is bound to
  \<open>None\<close>.  For a book with an embedding the content component is then evaluated:
  cosine\_similarity fails softly to 0 and the weight 0.5 enters the normalisation.
\<close>

lemma build_user_profile_body_keys:
  assumes "build_user_profile_body e interactions tdf now = Inr p"
  shows "preference_embedding p \<noteq> None \<and> favorite_categories p \<noteq> None \<and>
         favorite_authors p \<noteq> None"
  using assms
  by (auto simp: build_user_profile_body_def Let_def
           split: sum.splits prod.splits if_splits option.splits)

lemma build_user_profile_view:
  "build_user_profile base_env [view_interaction] (1 / 10) 0
     = \<lparr>preference_embedding = Some PyNone, favorite_categories = Some [''Fiction''],
        favorite_authors = Some [], interaction_count = Some 1\<rparr>"
  by (simp add: build_user_profile_def build_user_profile_body_def view_interaction_def
        book_with_id_def add_weight_def dict_get_def Let_def)

lemma affinity_none_embedding:
  assumes "preference_embedding p = Some PyNone"
    and "embedding b = Some be"
    and "favorite_categories p = Some favs"
    and "category b = Some (Val c)"
    and "favorite_authors p = None \<or> author b = None"
  shows "calculate_user_book_affinity cdist p b
           = Inr (match_loop (7 / 10) favs (lower c) 0 * (3 / 10) / (8 / 10))"
proof -
  have "cosine_similarity cdist PyNone be = Inr 0"
    by (simp add: cosine_similarity_def cosine_similarity_body_def catch_def)
  then have content: "content_component cdist p b = Inr (0, 1 / 2)"
    using assms(1,2) by (simp add: content_component_def)
  have cat: "category_component p b (0, 1 / 2)
               = Inr (match_loop (7 / 10) favs (lower c) 0 * (3 / 10), 8 / 10)"
    using assms(3,4) by (simp add: category_component_def)
  have auth: "author_component p b (x, y) = Inr (x, y)" for x y
    using assms(5) by (auto simp: author_component_def split: option.splits)
  show ?thesis
    by (simp add: calculate_user_book_affinity_def calculate_user_book_affinity_body_def
          catch_def content cat auth)
qed

lemma affinity_built_profile_example:
  "calculate_user_book_affinity cdist (build_user_profile base_env [view_interaction] (1 / 10) 0)
     ((book_with_id ''b1'')\<lparr>category := Some (Val ''Fiction''),
                             embedding := Some (Val [1, 0])\<rparr>) = Inr (3 / 8)"
proof -
  have m: "match_loop (7 / 10) [''Fiction''] (lower ''Fiction'') 0 = 1"
    by (simp add: lower_def char_lower_def upper_chars_def lower_chars_def)
  show ?thesis
    unfolding build_user_profile_view
    by (subst affinity_none_embedding [where favs = "[''Fiction'']" and c = "''Fiction''"
          and be = "Val [1, 0]"])
       (simp_all add: book_with_id_def m)
qed

section \<open>Properties of InMemoryCache\<close>

lemma cache_set_lookup:
  assumes "0 \<le> now + ttl * 1000000" and "now + ttl * 1000000 \<le> datetime_max"
  shows "map_of (cache (snd (cache_set c key v ttl now))) key
     = Some \<lparr>entry_value = v, expires_at = now + ttl * 1000000, created_at = now\<rparr>"
  using assms by (simp add: cache_set_def Let_def update_conv')

lemma cache_set_overflow:
  assumes "datetime_max < now + ttl * 1000000"
  shows "cache_set c key v ttl now
           = (False, if int (length (cache c)) \<ge> max_size c then evict_oldest c else c)"
  using assms by (simp add: cache_set_def Let_def)

text \<open>
  C4 as stated fails for a large ttl.  At the first instant of the year 2025 a \<open>set\<close>
  with a ttl of \<open>3 * 10^11\<close> seconds (some 9500 years) would expire after the year 9999:
  the addition raises \<open>OverflowError\<close>, \<open>set\<close> returns \<open>False\<close> and stores
  nothing, and the \<open>get\<close> that follows at once is a miss.
\<close>

theorem cache_set_overflow_counterexample:
  "cache_set (new_cache 1000) ''k'' (42 :: nat) 300000000000 63871286400000000
     = (False, new_cache 1000) \<and>
   fst (cache_get (snd (cache_set (new_cache 1000) ''k'' (42 :: nat) 300000000000
                          63871286400000000)) ''k'' 63871286400000000) = None"
  by (simp add: cache_set_def cache_get_def new_cache_def datetime_max_def)

text \<open>
  C4, amended.  For every cache, key, value and positive ttl such that \<open>now + ttl\<close> is
  a \<open>datetime\<close> (not after the year 9999): \<open>set\<close> at time \<open>now\<close> returns \<open>True\<close>;
  a \<open>get\<close> of the key at the same instant returns the value; so does a \<open>get\<close> at any
  time before \<open>now + ttl\<close>, and it leaves the entries as they are; a \<open>get\<close> at or
  after \<open>now + ttl\<close> is a miss and removes the entry.
\<close>

theorem cache_set_then_get:
  assumes "0 < ttl" and "0 \<le> now" and "now + ttl * 1000000 \<le> datetime_max"
  shows "fst (cache_set c key v ttl now) = True
     \<and> cache_get (snd (cache_set c key v ttl now)) key now
           = (Some v, (snd (cache_set c key v ttl now))
                \<lparr>access_times := AList.update key now (access_times (snd (cache_set c key v ttl now)))\<rparr>)
     \<and> (now' < now + ttl * 1000000 \<longrightarrow>
          cache_get (snd (cache_set c key v ttl now)) key now'
            = (Some v, (snd (cache_set c key v ttl now))
                \<lparr>access_times := AList.update key now' (access_times (snd (cache_set c key v ttl now)))\<rparr>))
     \<and> (now + ttl * 1000000 \<le> now' \<longrightarrow>
          fst (cache_get (snd (cache_set c key v ttl now)) key now') = None
          \<and> map_of (cache (snd (cache_get (snd (cache_set c key v ttl now)) key now'))) key = None)"
proof -
  let ?c1 = "snd (cache_set c key v ttl now)"
  have pos: "0 \<le> now + ttl * 1000000" using assms(1,2) by simp
  have ok: "fst (cache_set c key v ttl now) = True"
    using pos assms(3) by (simp add: cache_set_def Let_def)
  have look: "map_of (cache ?c1) key
     = Some \<lparr>entry_value = v, expires_at = now + ttl * 1000000, created_at = now\<rparr>"
    using pos assms(3) by (rule cache_set_lookup)
  have hit: "t < now + ttl * 1000000 \<Longrightarrow>
     cache_get ?c1 key t = (Some v, ?c1\<lparr>access_times := AList.update key t (access_times ?c1)\<rparr>)" for t
    by (simp add: cache_get_def look)
  have miss: "now + ttl * 1000000 \<le> t \<Longrightarrow>
     fst (cache_get ?c1 key t) = None
     \<and> map_of (cache (snd (cache_get ?c1 key t))) key = None" for t
    by (simp add: cache_get_def look cache_delete_def delete_conv')
  have "now < now + ttl * 1000000" using assms(1) by simp
  then show ?thesis using ok hit miss by blast
qed

theorem cache_set_then_get_witness:
  "(0 :: int) < 3600 \<and> (0 :: int) \<le> 63871286400000000 \<and>
   63871286400000000 + 3600 * 1000000 \<le> datetime_max \<and>
   fst (cache_set (new_cache 1000) ''k'' (42 :: nat) 3600 63871286400000000) = True \<and>
   fst (cache_get (snd (cache_set (new_cache 1000) ''k'' (42 :: nat) 3600 63871286400000000))
          ''k'' 63871286400000000) = Some 42 \<and>
   fst (cache_get (snd (cache_set (new_cache 1000) ''k'' (42 :: nat) 3600 63871286400000000))
          ''k'' 63871289999999999) = Some 42 \<and>
   fst (cache_get (snd (cache_set (new_cache 1000) ''k'' (42 :: nat) 3600 63871286400000000))
          ''k'' 63871290000000000) = None \<and>
   map_of (cache (snd (cache_get
                         (snd (cache_set (new_cache 1000) ''k'' (42 :: nat) 3600
                                 63871286400000000))
                         ''k'' 63871290000000000))) ''k'' = None"
proof -
  have r: "63871286400000000 + 3600 * 1000000 \<le> datetime_max"
    by (simp add: datetime_max_def)
  show ?thesis
    using cache_set_then_get [of 3600 63871286400000000 "new_cache 1000" "''k''" "42 :: nat"
            63871289999999999]
      cache_set_then_get [of 3600 63871286400000000 "new_cache 1000" "''k''" "42 :: nat"
            63871290000000000] r
    by simp
qed

lemma length_delete_less:
  "k \<in> fst ` set xs \<Longrightarrow> length (AList.delete k xs) < length xs"
proof (induction xs)
  case Nil
  then show ?case by simp
next
  case (Cons p ps)
  show ?case
  proof (cases "fst p = k")
    case True
    then show ?thesis using length_delete_le [of k ps] by (simp add: less_Suc_eq_le)
  next
    case False
    then have "k \<in> fst ` set ps" using Cons.prems by auto
    then show ?thesis using Cons.IH False by simp
  qed
qed

lemma length_update_le: "length (AList.update k v xs) \<le> Suc (length xs)"
  by (induction xs) auto

lemma keys_delete: "fst ` set (AList.delete k xs) = fst ` set xs - {k}"
  by (induction xs) auto

lemma keys_update: "fst ` set (AList.update k v xs) = insert k (fst ` set xs)"
  by (simp add: dom_update)

lemma cache_delete_wf:
  "cache_wf c \<Longrightarrow> cache_wf (snd (cache_delete c key))"
  by (auto simp: cache_wf_def cache_delete_def keys_delete distinct_delete)

lemma cache_delete_length:
  "length (cache (snd (cache_delete c key))) \<le> length (cache c)"
  by (simp add: cache_delete_def length_delete_le)

lemma cache_delete_max_size: "max_size (snd (cache_delete c key)) = max_size c"
  by (simp add: cache_delete_def)

lemma fold_delete_wf:
  "cache_wf c \<Longrightarrow> cache_wf (foldl (\<lambda>c key. snd (cache_delete c key)) c keys)"
  by (induction keys arbitrary: c) (simp_all add: cache_delete_wf)

lemma fold_delete_length:
  "length (cache (foldl (\<lambda>c key. snd (cache_delete c key)) c keys)) \<le> length (cache c)"
proof (induction keys arbitrary: c)
  case Nil
  show ?case by simp
next
  case (Cons k ks)
  have "length (cache (foldl (\<lambda>c key. snd (cache_delete c key)) (snd (cache_delete c k)) ks))
          \<le> length (cache (snd (cache_delete c k)))"
    by (rule Cons.IH)
  then show ?case using cache_delete_length [of c k] by simp
qed

lemma fold_delete_max_size:
  "max_size (foldl (\<lambda>c key. snd (cache_delete c key)) c keys) = max_size c"
  by (induction keys arbitrary: c) (simp_all add: cache_delete_max_size)

lemma evict_oldest_wf: "cache_wf c \<Longrightarrow> cache_wf (evict_oldest c)"
  by (simp add: evict_oldest_def keys_to_remove_def Let_def fold_delete_wf)

lemma evict_oldest_max_size: "max_size (evict_oldest c) = max_size c"
  by (simp add: evict_oldest_def keys_to_remove_def Let_def fold_delete_max_size)

lemma evict_oldest_length_le: "length (cache (evict_oldest c)) \<le> length (cache c)"
  by (simp add: evict_oldest_def keys_to_remove_def Let_def fold_delete_length)

lemma evict_oldest_shrinks:
  assumes "cache_wf c" and "cache c \<noteq> []"
  shows "length (cache (evict_oldest c)) < length (cache c)"
proof -
  have ne: "access_times c \<noteq> []"
    using assms by (auto simp: cache_wf_def)
  let ?s = "sort_key snd (access_times c)"
  have sne: "?s \<noteq> []" using ne by (metis length_sort list.size(3) length_0_conv)
  then obtain p ps where s: "?s = p # ps" by (cases ?s) auto
  let ?n = "max 1 (length ?s div 10)"
  have "take ?n ?s = p # take (?n - 1) ps"
    using s by (simp add: take_Cons' max_def)
  then obtain ks where ks: "map fst (take ?n ?s) = fst p # ks" by simp
  have "p \<in> set (access_times c)"
    using s by (metis list.set_intros(1) set_sort)
  then have "fst p \<in> fst ` set (cache c)"
    using assms(1) by (auto simp: cache_wf_def)
  then have "length (cache (snd (cache_delete c (fst p)))) < length (cache c)"
    by (auto simp: cache_delete_def length_delete_less map_of_eq_None_iff)
  moreover have "evict_oldest c
      = foldl (\<lambda>c key. snd (cache_delete c key)) (snd (cache_delete c (fst p))) ks"
    using ne ks by (simp add: evict_oldest_def keys_to_remove_def Let_def)
  ultimately show ?thesis
    using fold_delete_length [of "snd (cache_delete c (fst p))" ks] by simp
qed

lemma cache_delete_wf_unfold:
  assumes "cache_wf c"
  shows "cache (snd (cache_delete c key)) = AList.delete key (cache c)"
    and "access_times (snd (cache_delete c key)) = AList.delete key (access_times c)"
proof -
  show "cache (snd (cache_delete c key)) = AList.delete key (cache c)"
    by (simp add: cache_delete_def map_of_eq_None_iff)
  have "key \<notin> fst ` set (cache c) \<Longrightarrow> AList.delete key (access_times c) = access_times c"
    using assms by (simp add: cache_wf_def)
  then show "access_times (snd (cache_delete c key)) = AList.delete key (access_times c)"
    by (auto simp: cache_delete_def map_of_eq_None_iff)
qed

lemma filter_delete_keys:
  "filter (\<lambda>p. fst p \<notin> set ks) (AList.delete k xs)
     = filter (\<lambda>p. fst p \<notin> set (k # ks)) xs"
  by (induction xs) (auto simp: AList.delete_eq)

lemma fold_delete_filter:
  assumes "cache_wf c"
  shows "cache (foldl (\<lambda>c key. snd (cache_delete c key)) c keys)
           = filter (\<lambda>p. fst p \<notin> set keys) (cache c) \<and>
         access_times (foldl (\<lambda>c key. snd (cache_delete c key)) c keys)
           = filter (\<lambda>p. fst p \<notin> set keys) (access_times c)"
  using assms
proof (induction keys arbitrary: c)
  case Nil
  then show ?case by simp
next
  case (Cons k ks)
  have wf': "cache_wf (snd (cache_delete c k))" using Cons.prems by (rule cache_delete_wf)
  show ?case
    using Cons.IH [OF wf'] cache_delete_wf_unfold [OF Cons.prems, of k]
    by (simp add: filter_delete_keys del: set_simps)
qed

lemma length_filter_keys:
  assumes "distinct (map fst xs)" and "distinct ks" and "set ks \<subseteq> fst ` set xs"
  shows "length (filter (\<lambda>p. fst p \<notin> set ks) xs) + length ks = length xs"
proof -
  have "distinct (map fst (filter (\<lambda>p. fst p \<in> set ks) xs))"
    using assms(1) by (simp add: distinct_map_filter)
  then have "length (filter (\<lambda>p. fst p \<in> set ks) xs)
               = card (fst ` set (filter (\<lambda>p. fst p \<in> set ks) xs))"
    by (metis distinct_card length_map set_map)
  moreover have "fst ` set (filter (\<lambda>p. fst p \<in> set ks) xs) = set ks"
    using assms(3) by auto
  ultimately have "length (filter (\<lambda>p. fst p \<in> set ks) xs) = length ks"
    using assms(2) by (simp add: distinct_card)
  moreover have "length (filter (\<lambda>p. fst p \<in> set ks) xs)
                   + length (filter (\<lambda>p. fst p \<notin> set ks) xs) = length xs"
    using sum_length_filter_compl [of "\<lambda>p. fst p \<in> set ks" xs] by simp
  ultimately show ?thesis by simp
qed

lemma keys_to_remove_props:
  assumes "cache_wf c" and "access_times c \<noteq> []"
  shows "distinct (keys_to_remove c)"
    and "set (keys_to_remove c) \<subseteq> fst ` set (cache c)"
    and "length (keys_to_remove c) = max 1 (length (cache c) div 10)"
proof -
  let ?s = "sort_key snd (access_times c)"
  let ?n = "max 1 (length ?s div 10)"
  have d: "distinct (map fst ?s)"
    using assms(1) by (simp add: cache_wf_def distinct_map)
  have "map fst (take ?n ?s) = take ?n (map fst ?s)" by (simp add: take_map)
  then show "distinct (keys_to_remove c)"
    using d by (simp add: keys_to_remove_def Let_def distinct_take del: distinct_map)
  have "set (take ?n ?s) \<subseteq> set (access_times c)"
    using set_take_subset [of ?n ?s] by simp
  then show "set (keys_to_remove c) \<subseteq> fst ` set (cache c)"
    using assms(1) by (auto simp: keys_to_remove_def Let_def cache_wf_def)
  have len: "length (cache c) = length (access_times c)"
    using assms(1) by (metis cache_wf_def distinct_card length_map set_map)
  have "length (access_times c) \<ge> 1" using assms(2) by (cases "access_times c") auto
  then have "?n \<le> length ?s" by auto
  then show "length (keys_to_remove c) = max 1 (length (cache c) div 10)"
    using len by (simp add: keys_to_remove_def Let_def)
qed

text \<open>The eviction removes exactly \<open>max(1, n // 10)\<close> entries, those accessed longest ago.\<close>

lemma evict_oldest_count:
  assumes "cache_wf c" and "cache c \<noteq> []"
  shows "length (cache (evict_oldest c)) + max 1 (length (cache c) div 10) = length (cache c)"
proof -
  have ne: "access_times c \<noteq> []" using assms by (auto simp: cache_wf_def)
  have "cache (evict_oldest c) = filter (\<lambda>p. fst p \<notin> set (keys_to_remove c)) (cache c)"
    using fold_delete_filter [OF assms(1)] ne by (simp add: evict_oldest_def)
  then show ?thesis
    using length_filter_keys [of "cache c" "keys_to_remove c"]
      keys_to_remove_props [OF assms(1) ne] assms(1)
    by (simp add: cache_wf_def)
qed

lemma evict_oldest_oldest:
  assumes "cache_wf c" and "(k, t) \<in> set (access_times c)" and "k \<in> set (keys_to_remove c)"
    and "(k', t') \<in> set (access_times (evict_oldest c))"
  shows "t \<le> t'"
proof -
  have ne: "access_times c \<noteq> []" using assms(2) by auto
  let ?s = "sort_key snd (access_times c)"
  let ?n = "max 1 (length ?s div 10)"
  have d: "distinct (map fst (access_times c))" using assms(1) by (simp add: cache_wf_def)
  have after: "access_times (evict_oldest c)
                 = filter (\<lambda>p. fst p \<notin> set (keys_to_remove c)) (access_times c)"
    using fold_delete_filter [OF assms(1)] ne by (simp add: evict_oldest_def)
  have k'_in: "(k', t') \<in> set ?s" and k'_not: "k' \<notin> set (keys_to_remove c)"
    using assms(4) after by auto
  have "(k', t') \<notin> set (take ?n ?s)"
    using k'_not by (force simp: keys_to_remove_def Let_def)
  then have in_drop: "(k', t') \<in> set (drop ?n ?s)"
    using k'_in by (metis Un_iff append_take_drop_id set_append)
  obtain q where q: "q \<in> set (take ?n ?s)" "fst q = k"
    using assms(3) by (auto simp: keys_to_remove_def Let_def)
  then have "q \<in> set (access_times c)"
    using set_take_subset [of ?n ?s] by auto
  then have "q = (k, t)"
    using d assms(2) q(2) by (metis eq_key_imp_eq_value prod.collapse)
  then have in_take: "(k, t) \<in> set (take ?n ?s)" using q by simp
  have "sorted (map snd (take ?n ?s @ drop ?n ?s))" by simp
  then have "\<forall>x \<in> set (map snd (take ?n ?s)). \<forall>y \<in> set (map snd (drop ?n ?s)). x \<le> y"
    unfolding map_append sorted_append by blast
  then show ?thesis using in_take in_drop by force
qed

lemma cache_set_inv:
  assumes "cache_inv c" and "1 \<le> max_size c"
  shows "cache_inv (snd (cache_set c key v ttl now))"
proof -
  let ?c = "if int (length (cache c)) \<ge> max_size c then evict_oldest c else c"
  have wf: "cache_wf c" using assms(1) by (simp add: cache_inv_def cache_wf_def)
  have wf': "cache_wf ?c" using wf evict_oldest_wf by auto
  have ms: "max_size ?c = max_size c" by (simp add: evict_oldest_max_size)
  have len: "int (length (cache ?c)) < max_size c"
  proof (cases "int (length (cache c)) \<ge> max_size c")
    case True
    then have "cache c \<noteq> []" using assms(2) by auto
    then have "length (cache (evict_oldest c)) < length (cache c)"
      using wf evict_oldest_shrinks by blast
    moreover have "int (length (cache c)) \<le> max_size c"
      using assms(1) by (simp add: cache_inv_def)
    ultimately show ?thesis using True by simp
  next
    case False
    then show ?thesis by simp
  qed
  have "int (length (AList.update key e (cache ?c))) \<le> max_size c" for e
    using len length_update_le [of key e "cache ?c"] by linarith
  then show ?thesis
    using wf' ms len
    by (simp add: cache_set_def Let_def cache_inv_def cache_wf_def keys_update
          distinct_update del: AList.update.simps)
qed

lemma cache_delete_inv: "cache_inv c \<Longrightarrow> cache_inv (snd (cache_delete c key))"
  using cache_delete_wf [of c key] cache_delete_length [of c key]
  by (simp add: cache_inv_def cache_wf_def cache_delete_max_size)

lemma cache_get_inv: "cache_inv c \<Longrightarrow> cache_inv (snd (cache_get c key now))"
proof (cases "map_of (cache c) key")
  case None
  assume "cache_inv c"
  then show ?thesis using None by (simp add: cache_get_def)
next
  case (Some entry)
  assume inv: "cache_inv c"
  have "key \<in> fst ` set (cache c)"
    using Some by (metis map_of_eq_None_iff option.distinct(1))
  then have "insert key (fst ` set (access_times c)) = fst ` set (access_times c)"
    using inv by (auto simp: cache_inv_def)
  then show ?thesis
    using inv Some cache_delete_inv [of c key]
    by (simp add: cache_get_def cache_inv_def keys_update distinct_update
          del: AList.update.simps)
qed

lemma apply_cache_op_inv:
  assumes "cache_inv c" and "1 \<le> max_size c"
  shows "cache_inv (apply_cache_op c op) \<and> max_size (apply_cache_op c op) = max_size c"
proof (cases op)
  case (Get key now)
  then show ?thesis using assms cache_get_inv [of c key now]
    by (auto simp: cache_get_def cache_delete_def split: option.splits)
next
  case (Set key v ttl now)
  then show ?thesis using assms cache_set_inv [of c key v ttl now]
    by (simp add: cache_set_def Let_def evict_oldest_max_size)
next
  case (Delete key)
  then show ?thesis using assms cache_delete_inv [of c key]
    by (simp add: cache_delete_max_size)
next
  case Clear
  then show ?thesis using assms by (simp add: cache_clear_def cache_inv_def)
next
  case (Exists key now)
  then show ?thesis using assms cache_get_inv [of c key now]
    by (auto simp: cache_exists_def cache_get_def cache_delete_def split: option.splits prod.splits)
qed

lemma run_cache_ops_inv:
  "cache_inv c \<Longrightarrow> 1 \<le> max_size c \<Longrightarrow>
     cache_inv (run_cache_ops c ops) \<and> max_size (run_cache_ops c ops) = max_size c"
  unfolding run_cache_ops_def
proof (induction ops arbitrary: c)
  case Nil
  then show ?case by simp
next
  case (Cons op ops)
  have "cache_inv (apply_cache_op c op) \<and> max_size (apply_cache_op c op) = max_size c"
    using Cons.prems apply_cache_op_inv by blast
  then show ?case using Cons.IH [of "apply_cache_op c op"] Cons.prems by simp
qed

text \<open>
  C8 as stated fails for capacity 0: the store is at capacity when empty, there is nothing
  to evict, and the set inserts all the same.
\<close>

theorem cache_capacity_zero_counterexample:
  "\<not> int (length (cache (run_cache_ops (new_cache 0) [Set ''k'' True 60 0]))) \<le> 0"
  by code_simp

text \<open>
  C8, amended.  For every capacity \<open>max_size \<ge> 1\<close> and every sequence of get, set,
  delete, clear and exists operations on a new cache, the number of stored entries never
  exceeds \<open>max_size\<close>; and whenever the store is at capacity, the eviction that a set
  runs first removes \<open>max(1, n // 10)\<close> of its \<open>n\<close> entries, hence at least one.  By
  \<open>evict_oldest_oldest\<close> the entries removed are those accessed longest ago.
\<close>

theorem cache_never_exceeds_max_size:
  assumes "1 \<le> m"
  shows "int (length (cache (run_cache_ops (new_cache m) ops))) \<le> m \<and>
     distinct (map fst (cache (run_cache_ops (new_cache m) ops))) \<and>
     (int (length (cache (run_cache_ops (new_cache m) ops))) \<ge> m \<longrightarrow>
        length (cache (evict_oldest (run_cache_ops (new_cache m) ops)))
          + max 1 (length (cache (run_cache_ops (new_cache m) ops)) div 10)
          = length (cache (run_cache_ops (new_cache m) ops)))"
proof -
  let ?c = "run_cache_ops (new_cache m) ops"
  have "cache_inv (new_cache m :: 'a in_memory_cache)"
    using assms by (simp add: cache_inv_def new_cache_def)
  then have inv: "cache_inv ?c \<and> max_size ?c = m"
    using run_cache_ops_inv [of "new_cache m" ops] assms by (simp add: new_cache_def)
  then have wf: "cache_wf ?c" by (simp add: cache_inv_def cache_wf_def)
  have "int (length (cache ?c)) \<ge> m \<Longrightarrow> cache ?c \<noteq> []" using assms by auto
  then show ?thesis using inv wf evict_oldest_count [of ?c]
    by (auto simp: cache_inv_def)
qed

theorem cache_never_exceeds_max_size_witness:
  "int (length (cache (run_cache_ops (new_cache 2)
          [Set ''a'' True 60 0, Set ''b'' True 60 1, Get ''a'' 2, Set ''c'' False 60 3]))) \<le> 2"
  using cache_never_exceeds_max_size
    [of 2 "[Set ''a'' True 60 0, Set ''b'' True 60 1, Get ''a'' 2, Set ''c'' False 60 3]"]
  by simp

section \<open>Properties of CacheManager.\_generate\_cache\_key\<close>

lemma sort_key_fst_unique:
  assumes "distinct (map fst ps)" and "distinct (map fst qs)" and "set ps = set qs"
  shows "sort_key fst ps = sort_key fst qs"
proof (rule map_sorted_distinct_set_unique [where f = fst])
  show "inj_on fst (set (sort_key fst ps) \<union> set (sort_key fst qs))"
    using assms by (simp add: distinct_map)
  show "sorted (map fst (sort_key fst ps))" by simp
  show "sorted (map fst (sort_key fst qs))" by simp
  show "distinct (map fst (sort_key fst ps))"
    using assms(1) by (simp add: distinct_map)
  show "distinct (map fst (sort_key fst qs))"
    using assms(2) by (simp add: distinct_map)
  show "set (sort_key fst ps) = set (sort_key fst qs)"
    using assms(3) by simp
qed

lemma length_hexdigest: "length (hexdigest w) = 32"
  by (simp add: hexdigest_def)

text \<open>
  C7.  For every base key and every two listings of the same parameter pairs (distinct
  names), the generated keys are equal; and whenever the encoded parameter string is
  longer than 100 characters, the key is the base key, a colon and the 32 hexadecimal
  digits of the digest of that string.
\<close>

theorem generate_cache_key_order_independent:
  "(distinct (map fst ps) \<and> distinct (map fst qs) \<and> set ps = set qs \<longrightarrow>
      generate_cache_key md5 base_key ps = generate_cache_key md5 base_key qs) \<and>
   (length (param_string ps) > 100 \<longrightarrow>
      generate_cache_key md5 base_key ps = base_key @ '':'' @ hexdigest (md5 (param_string ps))
      \<and> length (hexdigest (md5 (param_string ps))) = 32)"
proof -
  have "generate_cache_key md5 base_key ps = generate_cache_key md5 base_key qs"
    if h: "distinct (map fst ps)" "distinct (map fst qs)" "set ps = set qs"
  proof -
    have "param_string ps = param_string qs"
      using sort_key_fst_unique [OF h] by (simp add: param_string_def)
    moreover have "ps = [] \<longleftrightarrow> qs = []" using h(3) by auto
    ultimately show ?thesis by (simp add: generate_cache_key_def)
  qed
  moreover have "generate_cache_key md5 base_key ps
        = base_key @ '':'' @ hexdigest (md5 (param_string ps))"
    if "length (param_string ps) > 100"
  proof -
    have "ps \<noteq> []" using that by (auto simp: param_string_def)
    then show ?thesis using that by (simp add: generate_cache_key_def)
  qed
  ultimately show ?thesis using length_hexdigest by blast
qed

theorem generate_cache_key_order_independent_witness:
  "generate_cache_key (\<lambda>s. 0) ''recommendations'' [(''a'', ''1''), (''b'', ''2'')]
     = generate_cache_key (\<lambda>s. 0) ''recommendations'' [(''b'', ''2''), (''a'', ''1'')]
   \<and> length (param_string [(''text'', replicate 101 CHR ''x'')]) > 100
   \<and> generate_cache_key (\<lambda>s. 0) ''k'' [(''text'', replicate 101 CHR ''x'')]
     = ''k:00000000000000000000000000000000''"
proof -
  have len: "length (param_string [(''text'', replicate 101 CHR ''x'')]) > 100"
    by (simp add: param_string_def)
  have hex: "hexdigest 0 = ''00000000000000000000000000000000''"
    by code_simp
  show ?thesis
    using generate_cache_key_order_independent
      [of "[(''a'', ''1''), (''b'', ''2'')]" "[(''b'', ''2''), (''a'', ''1'')]" "\<lambda>s. 0"
          "''recommendations''"]
      generate_cache_key_order_independent
      [of "[(''text'', replicate 101 CHR ''x'')]" "[]" "\<lambda>s. 0" "''k''"]
      len hex
    by auto
qed

section \<open>Properties of generate\_embedding\<close>

lemma strip_all_space:
  assumes "\<forall>c\<in>set t. is_space c"
  shows "strip t = []"
proof -
  have "dropWhile is_space t = []" using assms by (induction t) simp_all
  then show ?thesis by (simp only: strip_def rev.simps dropWhile.simps)
qed

text \<open>
  C10.  When the model is initialised and the text is empty or consists of whitespace
  only, generate\_embedding returns the vector of \<open>embedding_dimension\<close> zeros and
  leaves the service as it was: nothing is handed to the model, and no cache or counter
  changes.
\<close>

theorem generate_embedding_blank:
  assumes "is_ready s" and "\<forall>c\<in>set t. is_space c"
  shows "generate_embedding md5 nfc s t model_version use_cache
           = (Inr (replicate (embedding_dimension s) 0), s) \<and>
         encode_calls (snd (generate_embedding md5 nfc s t model_version use_cache))
           = encode_calls s"
  using assms strip_all_space [of t] by (simp add: generate_embedding_def)

theorem generate_embedding_blank_witness:
  "is_ready example_service \<and>
   is_space CHR '' '' \<and> is_space (CHR 0x09) \<and> is_space (CHR 0x0A) \<and>
   generate_embedding (\<lambda>s. 0) id example_service [CHR '' '', CHR 0x09, CHR 0x0A] None True
     = (Inr [0, 0, 0], example_service)"
  using generate_embedding_blank
    [of example_service "[CHR '' '', CHR 0x09, CHR 0x0A]" "\<lambda>s. 0" id None True]
  by (simp add: example_service_def is_ready_def is_space_def numeral_3_eq_3)

section \<open>Properties of the recommendation engine\<close>

lemma generate_cache_key_no_params: "generate_cache_key md5 key [] = key"
  by (simp add: generate_cache_key_def)

lemma cache_get_live_value: "fst (cache_get c key now) = live_value c key now"
  by (simp add: cache_get_def live_value_def split: option.splits)

lemma cache_get_other_entry:
  "k \<noteq> key \<Longrightarrow> map_of (cache (snd (cache_get c key now))) k = map_of (cache c) k"
  by (simp add: cache_get_def cache_delete_def split: option.splits)

lemma cache_get_same_entry:
  "map_of (cache (snd (cache_get c key now))) key = None \<or>
   map_of (cache (snd (cache_get c key now))) key = map_of (cache c) key"
  by (simp add: cache_get_def cache_delete_def delete_conv' split: option.splits)

lemma manager_get_unfold:
  "manager_get md5 m key [] now =
     (fst (cache_get (backend m) key now),
      m\<lparr>backend := snd (cache_get (backend m) key now),
        stats := (case fst (cache_get (backend m) key now) of
                    Some r \<Rightarrow> (stats m)\<lparr>hits := hits (stats m) + 1\<rparr>
                  | None \<Rightarrow> (stats m)\<lparr>misses := misses (stats m) + 1\<rparr>)\<rparr>)"
  by (simp add: manager_get_def generate_cache_key_no_params split: prod.splits option.splits)

lemma manager_get_result:
  "fst (manager_get md5 m key [] now) = live_value (backend m) key now"
  by (simp add: manager_get_unfold cache_get_live_value)

lemma manager_get_backend:
  "backend (snd (manager_get md5 m key [] now)) = snd (cache_get (backend m) key now)"
  by (simp add: manager_get_unfold)

lemma get_from_cache_unfold:
  "get_from_cache e st key now =
     (case cache_manager st of
        None \<Rightarrow> (None, st)
      | Some m \<Rightarrow> (fst (manager_get (env_md5 e) m key [] now),
                   st\<lparr>cache_manager := Some (snd (manager_get (env_md5 e) m key [] now))\<rparr>))"
  by (simp add: get_from_cache_def split: option.splits prod.splits)

lemma get_from_cache_result:
  "fst (get_from_cache e st key now) = engine_live_value st key now"
  by (simp add: get_from_cache_unfold engine_live_value_def manager_get_result
        split: option.splits)

lemma get_from_cache_manager:
  "cache_manager (snd (get_from_cache e st key now)) =
     (case cache_manager st of
        None \<Rightarrow> None
      | Some m \<Rightarrow> Some (snd (manager_get (env_md5 e) m key [] now)))"
  by (simp add: get_from_cache_unfold split: option.splits)

lemma get_from_cache_other_entry:
  assumes "k \<noteq> key"
  shows "engine_entry (snd (get_from_cache e st key now)) k = engine_entry st k"
proof (cases "cache_manager st")
  case None
  then show ?thesis by (simp add: get_from_cache_def)
next
  case (Some m)
  then show ?thesis
    using assms cache_get_other_entry [of k key "backend m" now]
    by (simp add: engine_entry_def get_from_cache_manager manager_get_backend)
qed

lemma get_from_cache_same_entry:
  "engine_entry (snd (get_from_cache e st key now)) key = None \<or>
   engine_entry (snd (get_from_cache e st key now)) key = engine_entry st key"
proof (cases "cache_manager st")
  case None
  then show ?thesis by (simp add: get_from_cache_def)
next
  case (Some m)
  then show ?thesis
    using cache_get_same_entry [of "backend m" key now]
    by (simp add: engine_entry_def get_from_cache_manager manager_get_backend)
qed

lemma engine_live_value_entry:
  "engine_entry st k = engine_entry st' k \<Longrightarrow>
     engine_live_value st k now = engine_live_value st' k now"
  by (auto simp: engine_entry_def engine_live_value_def live_value_def split: option.splits)

text \<open>Eviction and set keep or drop the entries of other keys; they never write them.\<close>

lemma cache_delete_entry:
  "map_of (cache (snd (cache_delete c key))) k = None \<or>
   map_of (cache (snd (cache_delete c key))) k = map_of (cache c) k"
  by (cases "k = key") (simp_all add: cache_delete_def delete_conv')

lemma fold_delete_entry:
  "map_of (cache (foldl (\<lambda>c key. snd (cache_delete c key)) c keys)) k = None \<or>
   map_of (cache (foldl (\<lambda>c key. snd (cache_delete c key)) c keys)) k = map_of (cache c) k"
proof (induction keys arbitrary: c)
  case Nil
  show ?case by simp
next
  case (Cons key keys)
  show ?case
    using Cons.IH [of "snd (cache_delete c key)"] cache_delete_entry [of c key k]
    by auto
qed

lemma evict_oldest_entry:
  "map_of (cache (evict_oldest c)) k = None \<or>
   map_of (cache (evict_oldest c)) k = map_of (cache c) k"
  using fold_delete_entry [of c _ k] by (simp add: evict_oldest_def keys_to_remove_def Let_def)

lemma cache_set_other_entry:
  assumes "k \<noteq> key"
  shows "map_of (cache (snd (cache_set c key v ttl now))) k = None \<or>
         map_of (cache (snd (cache_set c key v ttl now))) k = map_of (cache c) k"
  using assms evict_oldest_entry [of c k]
  by (auto simp: cache_set_def Let_def update_conv')

lemma set_cache_other_entry:
  assumes "k \<noteq> key"
  shows "engine_entry (set_cache e st key data ttl now) k = None \<or>
         engine_entry (set_cache e st key data ttl now) k = engine_entry st k"
proof (cases "cache_manager st")
  case None
  then show ?thesis by (simp add: set_cache_def)
next
  case (Some m)
  have "backend (snd (manager_set (env_md5 e) m key data ttl [] now))
          = snd (cache_set (backend m) key data ttl now)"
    by (simp add: manager_set_def generate_cache_key_no_params split: prod.splits)
  then show ?thesis
    using Some assms cache_set_other_entry [of k key "backend m" data ttl now]
    by (simp add: set_cache_def engine_entry_def)
qed

lemma engine_entry_stats [simp]:
  "engine_entry (st\<lparr>engine_stats := x\<rparr>) k = engine_entry st k"
  by (simp add: engine_entry_def)

lemma engine_live_value_stats [simp]:
  "engine_live_value (st\<lparr>engine_stats := x\<rparr>) k now = engine_live_value st k now"
  by (simp add: engine_live_value_def)

lemma get_trending_books_result:
  "fst (get_trending_books e st limit w m now)
     = trending_result e (engine_live_value st (trending_cache_key limit w m) now) limit w m now"
proof -
  let ?st1 = "st\<lparr>engine_stats := (engine_stats st)
                  \<lparr>trending_requests := trending_requests (engine_stats st) + 1\<rparr>\<rparr>"
  obtain r st2 where g: "get_from_cache e ?st1 (trending_cache_key limit w m) now = (r, st2)"
    by (cases "get_from_cache e ?st1 (trending_cache_key limit w m) now")
  have "r = engine_live_value st (trending_cache_key limit w m) now"
    using get_from_cache_result [of e ?st1 "trending_cache_key limit w m" now] g by simp
  then show ?thesis
    using g by (simp add: get_trending_books_def trending_result_def Let_def split: option.splits)
qed

lemma get_trending_books_other_entry:
  assumes "k \<noteq> trending_cache_key limit w m"
  shows "engine_entry (snd (get_trending_books e st limit w m now)) k = None \<or>
         engine_entry (snd (get_trending_books e st limit w m now)) k = engine_entry st k"
proof -
  let ?key = "trending_cache_key limit w m"
  let ?st1 = "st\<lparr>engine_stats := (engine_stats st)
                  \<lparr>trending_requests := trending_requests (engine_stats st) + 1\<rparr>\<rparr>"
  obtain r st2 where g: "get_from_cache e ?st1 ?key now = (r, st2)"
    by (cases "get_from_cache e ?st1 ?key now")
  have e2: "engine_entry st2 k = engine_entry st k"
    using get_from_cache_other_entry [of k ?key e ?st1 now] assms g by simp
  have set: "engine_entry (set_cache e st' ?key data 1800 now) k = None \<or>
        engine_entry (set_cache e st' ?key data 1800 now) k = engine_entry st k"
    if "engine_entry st' k = engine_entry st k" for st' data
    using set_cache_other_entry [of k ?key e st' data 1800 now] assms that by auto
  show ?thesis
    using g e2 set
    by (auto simp: get_trending_books_def Let_def split: option.splits)
qed

lemma cache_keys_differ:
  "personalized_cache_key user_id limit ep \<noteq> trending_cache_key l w m"
  by (simp add: personalized_cache_key_def trending_cache_key_def)

text \<open>
  C5, amended.  For every user with an empty interaction history, when the cache holds no
  live non-empty list under the personalized key, get\_personalized\_recommendations
  returns exactly what get\_trending\_books returns for the same limit (window 30, minimum
  5) at that moment, and writes nothing under the personalized key: the entry there is
  afterwards missing or the one that was there before.
\<close>

theorem personalized_cold_start:
  assumes "get_user_interactions e user_id = []"
    and "\<not> truthy (engine_live_value st (personalized_cache_key user_id limit ep) now)"
  shows "fst (get_personalized_recommendations e st user_id limit ep tdf now)
           = fst (get_trending_books e st limit 30 5 now) \<and>
         (engine_entry (snd (get_personalized_recommendations e st user_id limit ep tdf now))
            (personalized_cache_key user_id limit ep) = None \<or>
          engine_entry (snd (get_personalized_recommendations e st user_id limit ep tdf now))
            (personalized_cache_key user_id limit ep)
            = engine_entry st (personalized_cache_key user_id limit ep))"
proof -
  let ?pkey = "personalized_cache_key user_id limit ep"
  let ?tkey = "trending_cache_key limit 30 5"
  let ?st1 = "st\<lparr>engine_stats := (engine_stats st)
                  \<lparr>personalized_requests := personalized_requests (engine_stats st) + 1\<rparr>\<rparr>"
  obtain r st2 where g: "get_from_cache e ?st1 ?pkey now = (r, st2)"
    by (cases "get_from_cache e ?st1 ?pkey now")
  let ?st3 = "st2\<lparr>engine_stats := (engine_stats st2)
                  \<lparr>cache_misses := cache_misses (engine_stats st2) + 1\<rparr>\<rparr>"
  have r: "r = engine_live_value st ?pkey now"
    using get_from_cache_result [of e ?st1 ?pkey now] g by simp
  have run: "get_personalized_recommendations e st user_id limit ep tdf now
               = get_trending_books e ?st3 limit 30 5 now"
    using g r assms by (simp add: get_personalized_recommendations_def Let_def)
  have ne: "?tkey \<noteq> ?pkey" using cache_keys_differ [of user_id limit ep limit 30 5] by simp
  have "engine_entry st2 ?tkey = engine_entry st ?tkey"
    using get_from_cache_other_entry [of ?tkey ?pkey e ?st1 now] ne g by simp
  then have "engine_live_value ?st3 ?tkey now = engine_live_value st ?tkey now"
    using engine_live_value_entry [of st2 ?tkey st now] by simp
  then have res: "fst (get_trending_books e ?st3 limit 30 5 now)
                    = fst (get_trending_books e st limit 30 5 now)"
    by (simp add: get_trending_books_result)
  have p2: "engine_entry st2 ?pkey = None \<or> engine_entry st2 ?pkey = engine_entry st ?pkey"
    using get_from_cache_same_entry [of e ?st1 ?pkey now] g by simp
  have "engine_entry (snd (get_trending_books e ?st3 limit 30 5 now)) ?pkey = None \<or>
        engine_entry (snd (get_trending_books e ?st3 limit 30 5 now)) ?pkey
          = engine_entry ?st3 ?pkey"
    using get_trending_books_other_entry [of ?pkey limit 30 5 e ?st3 now] ne by auto
  then have ent: "engine_entry (snd (get_trending_books e ?st3 limit 30 5 now)) ?pkey = None \<or>
        engine_entry (snd (get_trending_books e ?st3 limit 30 5 now)) ?pkey
          = engine_entry st ?pkey"
    using p2 by auto
  show ?thesis using run res ent by simp
qed

lemma str_int_10: "str_int 10 = ''10''"
  by (simp add: str_int_def str_nat.simps digit_char_def)

lemma set_cache_live_value:
  assumes "cache_manager st \<noteq> None"
    and "0 \<le> now + ttl * 1000000" and "now + ttl * 1000000 \<le> datetime_max"
  shows "engine_live_value (set_cache e st key data ttl now) key now'
           = (if now + ttl * 1000000 > now' then Some data else None)"
proof -
  obtain m where m: "cache_manager st = Some m" using assms by auto
  have "backend (snd (manager_set (env_md5 e) m key data ttl [] now))
          = snd (cache_set (backend m) key data ttl now)"
    by (simp add: manager_set_def generate_cache_key_no_params split: prod.splits)
  then show ?thesis
    using m cache_set_lookup [OF assms(2,3), of "backend m" key data]
    by (simp add: set_cache_def engine_live_value_def live_value_def)
qed

lemma personalized_hit:
  assumes "truthy (engine_live_value st (personalized_cache_key user_id limit ep) now)"
  shows "fst (get_personalized_recommendations e st user_id limit ep tdf now)
           = cached_value (engine_live_value st (personalized_cache_key user_id limit ep) now)"
proof -
  let ?pkey = "personalized_cache_key user_id limit ep"
  let ?st1 = "st\<lparr>engine_stats := (engine_stats st)
                  \<lparr>personalized_requests := personalized_requests (engine_stats st) + 1\<rparr>\<rparr>"
  obtain r st2 where g: "get_from_cache e ?st1 ?pkey now = (r, st2)"
    by (cases "get_from_cache e ?st1 ?pkey now")
  have r: "r = engine_live_value st ?pkey now"
    using get_from_cache_result [of e ?st1 ?pkey now] g by simp
  show ?thesis
    using g r assms by (simp add: get_personalized_recommendations_def Let_def)
qed

text \<open>
  C5 as stated fails when the cache still holds a personalized list for the user: the
  interaction history is empty, and the cached list is returned, not the trending one.
\<close>

theorem personalized_cold_start_counterexample:
  "get_user_interactions base_env ''u1'' = [] \<and>
   fst (get_personalized_recommendations base_env warm_engine ''u1'' 10 True (1 / 10) 60000000)
     = [book_with_id ''b1''] \<and>
   fst (get_trending_books base_env warm_engine 10 30 5 60000000) = []"
proof -
  have live: "engine_live_value warm_engine (personalized_cache_key ''u1'' 10 True) 60000000
                = Some [book_with_id ''b1'']"
    unfolding warm_engine_def
    by (subst set_cache_live_value) (simp_all add: new_engine_def datetime_max_def)
  have p: "fst (get_personalized_recommendations base_env warm_engine ''u1'' 10 True (1 / 10)
                  60000000) = [book_with_id ''b1'']"
    using personalized_hit [of warm_engine "''u1''" 10 True 60000000 base_env "1 / 10"] live
    by (simp add: truthy_def cached_value_def)
  have ne: "trending_cache_key 10 30 5 \<noteq> personalized_cache_key ''u1'' 10 True"
    using cache_keys_differ [of "''u1''" 10 True 10 30 5] by simp
  have "engine_entry warm_engine (trending_cache_key 10 30 5)
          = engine_entry (new_engine (Some new_cache_manager)) (trending_cache_key 10 30 5)
        \<or> engine_entry warm_engine (trending_cache_key 10 30 5) = None"
    unfolding warm_engine_def
    using set_cache_other_entry [of "trending_cache_key 10 30 5"
            "personalized_cache_key ''u1'' 10 True" base_env
            "new_engine (Some new_cache_manager)" "[book_with_id ''b1'']" 1800 0] ne
    by auto
  then have "engine_entry warm_engine (trending_cache_key 10 30 5) = None"
    by (auto simp: engine_entry_def new_engine_def new_cache_manager_def new_cache_def)
  then have "engine_live_value warm_engine (trending_cache_key 10 30 5) 60000000 = None"
    by (auto simp: engine_entry_def engine_live_value_def live_value_def split: option.splits)
  then have t: "fst (get_trending_books base_env warm_engine 10 30 5 60000000) = []"
    by (simp add: get_trending_books_result trending_result_def truthy_def base_env_def)
  show ?thesis using p t by (simp add: base_env_def)
qed

theorem personalized_cold_start_witness:
  "get_user_interactions base_env ''u2'' = [] \<and>
   engine_live_value warm_engine (personalized_cache_key ''u2'' 10 True) 60000000 = None \<and>
   fst (get_personalized_recommendations base_env warm_engine ''u2'' 10 True (1 / 10) 60000000)
     = fst (get_trending_books base_env warm_engine 10 30 5 60000000)"
proof -
  have ne: "personalized_cache_key ''u2'' 10 True \<noteq> personalized_cache_key ''u1'' 10 True"
    by (simp add: personalized_cache_key_def)
  have "engine_entry warm_engine (personalized_cache_key ''u2'' 10 True)
          = engine_entry (new_engine (Some new_cache_manager)) (personalized_cache_key ''u2'' 10 True)
        \<or> engine_entry warm_engine (personalized_cache_key ''u2'' 10 True) = None"
    unfolding warm_engine_def
    using set_cache_other_entry [of "personalized_cache_key ''u2'' 10 True"
            "personalized_cache_key ''u1'' 10 True" base_env
            "new_engine (Some new_cache_manager)" "[book_with_id ''b1'']" 1800 0] ne
    by auto
  then have "engine_entry warm_engine (personalized_cache_key ''u2'' 10 True) = None"
    by (auto simp: engine_entry_def new_engine_def new_cache_manager_def new_cache_def)
  then have none: "engine_live_value warm_engine
                     (personalized_cache_key ''u2'' 10 True) 60000000 = None"
    by (auto simp: engine_entry_def engine_live_value_def live_value_def
             split: option.splits)
  then have miss: "\<not> truthy (engine_live_value warm_engine
                               (personalized_cache_key ''u2'' 10 True) 60000000)"
    by (simp add: truthy_def)
  have int: "get_user_interactions base_env ''u2'' = []" by (simp add: base_env_def)
  show ?thesis
    using personalized_cold_start [OF int miss, of "1 / 10"] int none by simp
qed

lemma similar_hit:
  assumes "truthy (engine_live_value st (similar_cache_key e book_id limit ms) now)"
  shows "fst (get_similar_books e st book_id limit ms ex now)
           = cached_value (engine_live_value st (similar_cache_key e book_id limit ms) now)"
proof -
  let ?key = "similar_cache_key e book_id limit ms"
  let ?st1 = "st\<lparr>engine_stats := (engine_stats st)
                  \<lparr>similar_book_requests := similar_book_requests (engine_stats st) + 1\<rparr>\<rparr>"
  obtain r st2 where g: "get_from_cache e ?st1 ?key now = (r, st2)"
    by (cases "get_from_cache e ?st1 ?key now")
  have r: "r = engine_live_value st ?key now"
    using get_from_cache_result [of e ?st1 ?key now] g by simp
  show ?thesis
    using g r assms by (simp add: get_similar_books_def Let_def)
qed

text \<open>
  C9, amended.  The cache key of get\_similar\_books is built from book\_id, limit and
  min\_similarity only; so whenever the cache holds a live, non-empty list under that key,
  two calls that differ only in exclude\_categories both return that list, whatever the
  store would answer.
\<close>

theorem similar_books_cache_ignores_exclusions:
  assumes "engine_live_value st (similar_cache_key e book_id limit min_similarity) now = Some r"
    and "r \<noteq> []"
  shows "fst (get_similar_books e st book_id limit min_similarity exclude1 now) = r \<and>
         fst (get_similar_books e st book_id limit min_similarity exclude2 now) = r"
  using assms similar_hit [of st e book_id limit min_similarity now]
  by (simp add: truthy_def cached_value_def)

lemma get_from_cache_manager_present:
  "cache_manager (snd (get_from_cache e st key now)) \<noteq> None \<longleftrightarrow> cache_manager st \<noteq> None"
  by (simp add: get_from_cache_manager split: option.splits)

lemma similar_miss:
  assumes "\<not> truthy (engine_live_value st (similar_cache_key e book_id limit ms) now)"
    and "get_book_data e book_id = Some target"
    and "get_or_generate_book_embedding e target = Some te"
    and "score_similar e target te ms (get_candidate_books e (Some book_id) None ex) = Inr sb"
    and "res = py_take limit
                 (diversify_results (py_take (limit * 2) (sort_key (\<lambda>x. - score x) sb)) (3 / 10) 3)"
  shows "fst (get_similar_books e st book_id limit ms ex now) = res"
    and "cache_manager st \<noteq> None \<Longrightarrow> 0 \<le> now \<Longrightarrow>
         now + 3600 * 1000000 \<le> datetime_max \<Longrightarrow>
         engine_live_value (snd (get_similar_books e st book_id limit ms ex now))
            (similar_cache_key e book_id limit ms) now'
           = (if now + 3600 * 1000000 > now' then Some res else None)"
proof -
  let ?key = "similar_cache_key e book_id limit ms"
  let ?st1 = "st\<lparr>engine_stats := (engine_stats st)
                  \<lparr>similar_book_requests := similar_book_requests (engine_stats st) + 1\<rparr>\<rparr>"
  obtain r st2 where g: "get_from_cache e ?st1 ?key now = (r, st2)"
    by (cases "get_from_cache e ?st1 ?key now")
  let ?st3 = "st2\<lparr>engine_stats := (engine_stats st2)
                  \<lparr>cache_misses := cache_misses (engine_stats st2) + 1\<rparr>\<rparr>"
  let ?st4 = "set_cache e ?st3 ?key res 3600 now"
  have r: "r = engine_live_value st ?key now"
    using get_from_cache_result [of e ?st1 ?key now] g by simp
  have run: "get_similar_books e st book_id limit ms ex now
      = (res, ?st4\<lparr>engine_stats := (engine_stats ?st4)
                      \<lparr>recommendations_generated :=
                         recommendations_generated (engine_stats ?st4) + 1\<rparr>\<rparr>)"
    using g r assms by (simp add: get_similar_books_def Let_def)
  show "fst (get_similar_books e st book_id limit ms ex now) = res"
    using run by simp
  assume cm: "cache_manager st \<noteq> None"
    and lo: "0 \<le> now" and hi: "now + 3600 * 1000000 \<le> datetime_max"
  have "cache_manager st2 \<noteq> None"
    using get_from_cache_manager_present [of e ?st1 ?key now] g cm by simp
  then have cm3: "cache_manager ?st3 \<noteq> None" by simp
  have lo': "0 \<le> now + 3600 * 1000000" using lo by simp
  have "engine_live_value ?st4 ?key now'
               = (if now + 3600 * 1000000 > now' then Some res else None)"
    using cm3 lo' hi by (rule set_cache_live_value)
  then show "engine_live_value (snd (get_similar_books e st book_id limit ms ex now)) ?key now'
           = (if now + 3600 * 1000000 > now' then Some res else None)"
    using run by simp
qed

lemma diversify_results_singleton: "diversify_results [x] d k = [x]"
  by (simp add: diversify_results_def diversify_loop.simps Let_def)

lemma fiction_key: "similar_cache_key fiction_env ''t1'' 10 (3 / 10) = ''similar_t1_10_0.3''"
  by (simp add: similar_cache_key_def str_int_10 fiction_env_def base_env_def)

lemma fiction_cosine: "cosine_similarity exact_cosine (Val [1, 0]) (Val [1, 0]) = Inr 1"
  by (simp add: cosine_similarity_def cosine_similarity_body_def catch_def exact_cosine_def
        dot_def)

lemma datetime_first_hour: "(0 :: int) \<le> 0" "0 + 3600 * 1000000 \<le> datetime_max"
  by (simp_all add: datetime_max_def)

lemma fiction_first_call_excluding:
  "fst (get_similar_books fiction_env (new_engine (Some new_cache_manager)) ''t1'' 10 (3 / 10)
          (Some [''Fiction'']) 0) = []"
  "engine_live_value
     (snd (get_similar_books fiction_env (new_engine (Some new_cache_manager)) ''t1'' 10 (3 / 10)
             (Some [''Fiction'']) 0))
     (similar_cache_key fiction_env ''t1'' 10 (3 / 10)) 1000000 = Some []"
proof -
  let ?st = "new_engine (Some new_cache_manager)"
  have miss: "\<not> truthy (engine_live_value ?st (similar_cache_key fiction_env ''t1'' 10 (3 / 10)) 0)"
    by (simp add: engine_live_value_def live_value_def new_engine_def new_cache_manager_def
          new_cache_def truthy_def)
  have b: "get_book_data fiction_env ''t1'' = Some (book_with_id ''t1'')"
    by (simp add: fiction_env_def)
  have te: "get_or_generate_book_embedding fiction_env (book_with_id ''t1'') = Some [1, 0]"
    by (simp add: fiction_env_def)
  have sc: "score_similar fiction_env (book_with_id ''t1'') [1, 0] (3 / 10)
              (get_candidate_books fiction_env (Some ''t1'') None (Some [''Fiction''])) = Inr []"
    by (simp add: fiction_env_def)
  have res: "[] = py_take 10 (diversify_results (py_take (10 * 2)
                     (sort_key (\<lambda>x. - score x) ([] :: book list))) (3 / 10) 3)"
    by (simp add: py_take_def diversify_results_def)
  show "fst (get_similar_books fiction_env ?st ''t1'' 10 (3 / 10) (Some [''Fiction'']) 0) = []"
    using similar_miss(1) [OF miss b te sc res] .
  have cm: "cache_manager ?st \<noteq> None" by (simp add: new_engine_def)
  show "engine_live_value
     (snd (get_similar_books fiction_env ?st ''t1'' 10 (3 / 10) (Some [''Fiction'']) 0))
     (similar_cache_key fiction_env ''t1'' 10 (3 / 10)) 1000000 = Some []"
    using similar_miss(2) [OF miss b te sc res cm datetime_first_hour, of 1000000] by simp
qed

lemma fiction_score:
  "score_similar fiction_env (book_with_id ''t1'') [1, 0] (3 / 10)
     (get_candidate_books fiction_env (Some ''t1'') None None) = Inr [fiction_candidate]"
  by (simp add: fiction_env_def base_env_def fiction_cosine fiction_candidate_def)

lemma fiction_res:
  "[fiction_candidate] = py_take 10 (diversify_results (py_take (10 * 2)
                     (sort_key (\<lambda>x. - score x) [fiction_candidate])) (3 / 10) 3)"
  by (simp add: py_take_def diversify_results_singleton)

text \<open>
  C9 as stated fails for an empty result.  The first call excludes Fiction, finds no
  candidate and caches the empty list; the second call, without exclusion, finds the
  empty list under the same key, takes it for a miss and computes its own result.
\<close>

theorem similar_books_empty_result_counterexample:
  "engine_live_value
     (snd (get_similar_books fiction_env (new_engine (Some new_cache_manager)) ''t1'' 10 (3 / 10)
             (Some [''Fiction'']) 0))
     (similar_cache_key fiction_env ''t1'' 10 (3 / 10)) 1000000 = Some [] \<and>
   fst (get_similar_books fiction_env
          (snd (get_similar_books fiction_env (new_engine (Some new_cache_manager)) ''t1'' 10
                  (3 / 10) (Some [''Fiction'']) 0))
          ''t1'' 10 (3 / 10) None 1000000) = [fiction_candidate]"
proof -
  let ?st1 = "snd (get_similar_books fiction_env (new_engine (Some new_cache_manager)) ''t1'' 10
                  (3 / 10) (Some [''Fiction'']) 0)"
  have live: "engine_live_value ?st1 (similar_cache_key fiction_env ''t1'' 10 (3 / 10)) 1000000
                = Some []"
    by (rule fiction_first_call_excluding(2))
  then have miss: "\<not> truthy (engine_live_value ?st1
                      (similar_cache_key fiction_env ''t1'' 10 (3 / 10)) 1000000)"
    by (simp add: truthy_def)
  have b: "get_book_data fiction_env ''t1'' = Some (book_with_id ''t1'')"
    by (simp add: fiction_env_def)
  have te: "get_or_generate_book_embedding fiction_env (book_with_id ''t1'') = Some [1, 0]"
    by (simp add: fiction_env_def)
  have "fst (get_similar_books fiction_env ?st1 ''t1'' 10 (3 / 10) None 1000000)
          = [fiction_candidate]"
    using similar_miss(1) [OF miss b te fiction_score fiction_res] .
  then show ?thesis using live by simp
qed

theorem similar_books_cache_ignores_exclusions_witness:
  "engine_live_value
     (snd (get_similar_books fiction_env (new_engine (Some new_cache_manager)) ''t1'' 10 (3 / 10)
             None 0))
     (similar_cache_key fiction_env ''t1'' 10 (3 / 10)) 1000000 = Some [fiction_candidate] \<and>
   fst (get_similar_books fiction_env
          (snd (get_similar_books fiction_env (new_engine (Some new_cache_manager)) ''t1'' 10
                  (3 / 10) None 0))
          ''t1'' 10 (3 / 10) None 1000000) = [fiction_candidate] \<and>
   fst (get_similar_books fiction_env
          (snd (get_similar_books fiction_env (new_engine (Some new_cache_manager)) ''t1'' 10
                  (3 / 10) None 0))
          ''t1'' 10 (3 / 10) (Some [''Fiction'']) 1000000) = [fiction_candidate]"
proof -
  let ?st = "new_engine (Some new_cache_manager)"
  let ?st1 = "snd (get_similar_books fiction_env ?st ''t1'' 10 (3 / 10) None 0)"
  have miss: "\<not> truthy (engine_live_value ?st (similar_cache_key fiction_env ''t1'' 10 (3 / 10)) 0)"
    by (simp add: engine_live_value_def live_value_def new_engine_def new_cache_manager_def
          new_cache_def truthy_def)
  have b: "get_book_data fiction_env ''t1'' = Some (book_with_id ''t1'')"
    by (simp add: fiction_env_def)
  have te: "get_or_generate_book_embedding fiction_env (book_with_id ''t1'') = Some [1, 0]"
    by (simp add: fiction_env_def)
  have cm: "cache_manager ?st \<noteq> None" by (simp add: new_engine_def)
  have live: "engine_live_value ?st1 (similar_cache_key fiction_env ''t1'' 10 (3 / 10)) 1000000
                = Some [fiction_candidate]"
    using similar_miss(2) [OF miss b te fiction_score fiction_res cm datetime_first_hour,
            of 1000000]
    by simp
  show ?thesis
    using similar_books_cache_ignores_exclusions
      [of ?st1 fiction_env "''t1''" 10 "3 / 10" 1000000 "[fiction_candidate]" None
          "Some [''Fiction'']"] live
    by simp
qed

end
